theory Spec2Isabelle
  imports Complex_Main "HOL-Library.Sublist" "HOL-Library.AList"
begin

section \<open>Python values and errors\<close>

text \<open>
  Every exception the modelled Python code can raise is a value of \<open>error\<close>;
  a fallible function returns \<open>error + 'a\<close> with \<open>Inl\<close> for the raise.
  \<open>EnvError\<close> stands for whatever the TextArena environment raises and
  \<open>AgentError\<close> for a failing response generation.
\<close>

datatype error =
    KeyError
  | AttributeError
  | TypeError
  | AssertionError
  | ValueError string
  | EnvError
  | AgentError

text \<open>Python's \<open>str(n)\<close> on an integer, used by the f-string \<open>f"Player {sender_id}"\<close>.\<close>

definition digit_char :: "nat \<Rightarrow> char" where
  "digit_char d = ''0123456789'' ! d"

fun str_nat :: "nat \<Rightarrow> string" where
  "str_nat n = (if n < 10 then [digit_char n] else str_nat (n div 10) @ [digit_char (n mod 10)])"

declare str_nat.simps [simp del]

definition str_int :: "int \<Rightarrow> string" where
  "str_int i = (if i < 0 then CHR ''-'' # str_nat (nat (- i)) else str_nat (nat i))"

text \<open>Python's \<open>pat in s\<close> on strings: \<open>pat\<close> occurs in \<open>s\<close> as a contiguous substring.\<close>

fun py_in :: "string \<Rightarrow> string \<Rightarrow> bool" where
  "py_in pat [] = (pat = [])"
| "py_in pat (c # cs) = (prefix pat (c # cs) \<or> py_in pat cs)"

section \<open>The TextArena environment as seen by the integration\<close>

text \<open>
  \<open>ObservationType\<close> is the enum of the textarena library; the integration only
  distinguishes \<open>PLAYER_ACTION\<close> from the rest. An observation is the tuple
  \<open>(sender_id, message, observation_type)\<close>.
\<close>

datatype ObservationType =
    PROMPT
  | PLAYER_ACTION
  | GAME_ACTION_DESCRIPTION
  | GAME_MESSAGE
  | GAME_BOARD
  | GAME_ADMIN

type_synonym observation = "int \<times> string \<times> ObservationType"

text \<open>
  \<open>env.state\<close>: the fields the integration reads. \<open>observations\<close> is the dict from
  player id to that player's list of observations, \<open>role_mapping\<close> the dict from id to
  role name. \<open>internal\<close> is the rest of the environment (board, rules), opaque here.
\<close>

record 'g ta_state =
  current_player_id :: int
  observations :: "int \<rightharpoonup> observation list"
  role_mapping :: "int \<rightharpoonup> string"
  internal :: 'g

section \<open>ClemObservationWrapper\<close>

text \<open>
  The loop of \<open>_convert_obs_to_context\<close> over the unseen observations, with the
  accumulator \<open>content\<close>. \<open>role_mapping.get(sender_id, f"Player {sender_id}")\<close> is
  \<open>sender_name\<close>.
\<close>

definition sender_name :: "(int \<rightharpoonup> string) \<Rightarrow> int \<Rightarrow> string" where
  "sender_name rm sender_id =
     (case rm sender_id of Some n \<Rightarrow> n | None \<Rightarrow> ''Player '' @ str_int sender_id)"

fun convert_loop :: "(int \<rightharpoonup> string) \<Rightarrow> int \<Rightarrow> string \<Rightarrow> observation list \<Rightarrow> string" where
  "convert_loop rm player_id content [] = content"
| "convert_loop rm player_id content ((sender_id, message, observation_type) # rest) =
     (if observation_type \<noteq> PLAYER_ACTION then
        convert_loop rm player_id
          (content @ ''['' @ sender_name rm sender_id @ ''] '' @ message @ [CHR ''\<newline>'']) rest
      else if sender_id = player_id then
        convert_loop rm player_id content rest
      else
        convert_loop rm player_id
          (content @ ''['' @ sender_name rm sender_id @ ''] '' @ message @ [CHR ''\<newline>'']) rest)"

text \<open>
  \<open>_convert_obs_to_context(player_id)\<close>. The state it touches is the wrapper's
  \<open>logged_observation_count\<close> dict (the cursor of each player) and, read only, the
  environment state. \<open>STANDARD_GAME_PROMPT\<close> is a constant of the textarena library and
  is a parameter here. The result is the \<open>content\<close> of the context dict
  \<open>{'role': 'user', 'content': content}\<close> and the updated cursor dict. Both dict
  subscripts raise \<open>KeyError\<close> on a missing key; the slice \<open>xs[c:]\<close> is \<open>drop c xs\<close>.
\<close>

definition convert_obs_to_context ::
  "string \<Rightarrow> 'g ta_state \<Rightarrow> (int \<rightharpoonup> nat) \<Rightarrow> int \<Rightarrow> error + (string \<times> (int \<rightharpoonup> nat))" where
  "convert_obs_to_context STANDARD_GAME_PROMPT st logged_observation_count player_id =
     (case logged_observation_count player_id of
        None \<Rightarrow> Inl KeyError
      | Some cnt \<Rightarrow>
          let content = (if cnt = 0 then STANDARD_GAME_PROMPT @ [CHR ''\<newline>'', CHR ''\<newline>''] else [])
          in (case observations st player_id of
                None \<Rightarrow> Inl KeyError
              | Some obs \<Rightarrow>
                  let new_obs = drop cnt obs;
                      cnt' = cnt + length new_obs
                  in Inr (convert_loop (role_mapping st) player_id content new_obs,
                          logged_observation_count(player_id \<mapsto> cnt'))))"

text \<open>\<open>observation(player_id)\<close> only forwards to \<open>_convert_obs_to_context\<close>.\<close>

definition observation ::
  "string \<Rightarrow> 'g ta_state \<Rightarrow> (int \<rightharpoonup> nat) \<Rightarrow> int \<Rightarrow> error + (string \<times> (int \<rightharpoonup> nat))" where
  "observation = convert_obs_to_context"

text \<open>
  What the wrapper is meant to deliver, written from the description: an observation is
  visible to a player unless it is that player's own action, and a visible observation
  is one line \<open>[name] message\<close>.
\<close>

definition visible_to :: "int \<Rightarrow> observation \<Rightarrow> bool" where
  "visible_to player_id ob = (case ob of (sender_id, message, ty) \<Rightarrow>
     \<not> (ty = PLAYER_ACTION \<and> sender_id = player_id))"

definition render_line :: "(int \<rightharpoonup> string) \<Rightarrow> observation \<Rightarrow> string" where
  "render_line rm ob = (case ob of (sender_id, message, ty) \<Rightarrow>
     ''['' @ sender_name rm sender_id @ ''] '' @ message @ [CHR ''\<newline>''])"

definition render_visible :: "(int \<rightharpoonup> string) \<Rightarrow> int \<Rightarrow> observation list \<Rightarrow> string" where
  "render_visible rm player_id obs = concat (map (render_line rm) (filter (visible_to player_id) obs))"

section \<open>Framework state and logging\<close>

text \<open>
  The metric keys are constants of \<open>clemcore.clemgame.metrics\<close>; the code only needs them
  to be distinct keys of the interactions dict.
\<close>

definition METRIC_ABORTED :: string where "METRIC_ABORTED = ''Aborted''"
definition METRIC_SUCCESS :: string where "METRIC_SUCCESS = ''Success''"
definition METRIC_LOSE :: string where "METRIC_LOSE = ''Lose''"
definition BENCH_SCORE :: string where "BENCH_SCORE = ''Main Score''"

text \<open>
  The values found in the details dicts returned by \<open>env.close()\<close>, with Python's
  truthiness. \<open>rewards\<close> is the pair \<open>(rewards[0], rewards[1])\<close>: the numeric reward per
  player id and the details dict per player id.
\<close>

datatype py_val = PNone | PBool bool | PStr string | PNum real

fun truthy :: "py_val \<Rightarrow> bool" where
  "truthy PNone = False"
| "truthy (PBool b) = b"
| "truthy (PStr s) = (s \<noteq> [])"
| "truthy (PNum r) = (r \<noteq> 0)"

type_synonym details = "string \<rightharpoonup> py_val"
type_synonym rewards = "(int \<rightharpoonup> real) \<times> (int \<rightharpoonup> details)"
type_synonym info = "(string \<times> string) list"

datatype log_val =
    LNum real
  | LInt int
  | LStr string
  | LRewards "int \<rightharpoonup> real"
  | LDetails "int \<rightharpoonup> details"

text \<open>
  What \<open>log_event\<close> and \<open>log_to_self\<close> record. The framework renders the payloads as
  text; the model keeps them structured.
\<close>

datatype event =
    SendMessage string string string
  | InfoEvent info
  | RewardsEvent details

text \<open>
  A \<open>TextArenaPlayer\<close>: its TextArena id, the name given by \<open>add_player\<close> and its role
  (the name of its dynamically created class). The values of \<open>players_by_id\<close> are the
  string \<open>"GM"\<close> under key \<open>-1\<close> and player objects under the other keys.
\<close>

record player =
  ta_id :: int
  name :: string
  game_role :: string

datatype player_entry = GM | PlayerObj player

text \<open>
  The fields of \<open>TextArenaGameMaster\<close> set in \<open>__init__\<close>, together with the state of the
  wrapped environment (\<open>env_state\<close> is \<open>self.env.state\<close>, \<open>logged_observation_count\<close> the
  cursor dict of the \<open>ClemObservationWrapper\<close>) and the state the clemcore base class
  keeps: the round counter advanced by \<open>log_next_round\<close>, the counter advanced by
  \<open>count_request_violation\<close>, the dict written by \<open>log_key\<close> and the logged events.
  \<open>players_by_id\<close> is an association list in insertion order, as the dict is iterated.
  \<open>close_calls\<close> counts the invocations of \<open>env.close()\<close>.
\<close>

record 'g game_master =
  env_state :: "'g ta_state"
  logged_observation_count :: "int \<rightharpoonup> nat"
  players_by_id :: "(int \<times> player_entry) list"
  request_violation :: bool
  played_in_round :: "int set"
  last_player :: "int option"
  started :: bool
  done_flag :: bool
  checked_observations :: "int \<rightharpoonup> nat"
  current_round :: nat
  violated_request_count :: nat
  interactions :: "string \<rightharpoonup> log_val"
  events :: "event list"
  close_calls :: nat

text \<open>
  The collaborators the game master consumes: the environment's \<open>step\<close> and \<open>close\<close>,
  the response generation of the players (it may read everything logged so far), the
  subclass hook \<open>_on_after_game\<close> (every subclass only reads the state and calls
  \<open>log_key\<close>, so a hook returns the key/value pairs it logs) and the prompt constant.
\<close>

record 'g collaborators =
  env_step :: "'g ta_state \<Rightarrow> string \<Rightarrow> error + (bool \<times> info \<times> 'g ta_state)"
  env_close :: "'g ta_state \<Rightarrow> error + (rewards \<times> 'g ta_state)"
  respond :: "'g game_master \<Rightarrow> player \<Rightarrow> string \<Rightarrow> error + string"
  on_after_game :: "rewards \<Rightarrow> 'g game_master \<Rightarrow> error + (string \<times> log_val) list"
  STANDARD_GAME_PROMPT :: string

definition count_request_violation :: "'g game_master \<Rightarrow> 'g game_master" where
  "count_request_violation s = s\<lparr>violated_request_count := violated_request_count s + 1\<rparr>"

definition log_next_round :: "'g game_master \<Rightarrow> 'g game_master" where
  "log_next_round s = s\<lparr>current_round := current_round s + 1\<rparr>"

definition log_key :: "string \<Rightarrow> log_val \<Rightarrow> 'g game_master \<Rightarrow> 'g game_master" where
  "log_key k v s = s\<lparr>interactions := (interactions s)(k \<mapsto> v)\<rparr>"

definition log_event :: "event \<Rightarrow> 'g game_master \<Rightarrow> 'g game_master" where
  "log_event e s = s\<lparr>events := events s @ [e]\<rparr>"

fun log_keys :: "(string \<times> log_val) list \<Rightarrow> 'g game_master \<Rightarrow> 'g game_master" where
  "log_keys [] s = s"
| "log_keys ((k, v) # kvs) s = log_keys kvs (log_key k v s)"

section \<open>TextArenaGameMaster\<close>

text \<open>
  \<open>__init__\<close>, followed by the part of \<open>setup\<close> that wraps and resets the environment:
  \<open>st0\<close> is the environment state after \<open>reset\<close> and \<open>num_players\<close> is
  \<open>len(self.player_models)\<close>, for which the wrapper creates its cursors.
\<close>

definition init_master :: "'g ta_state \<Rightarrow> nat \<Rightarrow> 'g game_master" where
  "init_master st0 num_players =
     \<lparr> env_state = st0,
       logged_observation_count = (\<lambda>i. if 0 \<le> i \<and> i < int num_players then Some 0 else None),
       players_by_id = [(-1, GM)],
       request_violation = False,
       played_in_round = {},
       last_player = None,
       started = True,
       done_flag = False,
       checked_observations = Map.empty,
       current_round = 0,
       violated_request_count = 0,
       interactions = Map.empty,
       events = [],
       close_calls = 0 \<rparr>"

definition add_player :: "string \<Rightarrow> int \<Rightarrow> 'g game_master \<Rightarrow> 'g game_master" where
  "add_player role player_id s =
     s\<lparr> players_by_id :=
          AList.update player_id
            (PlayerObj \<lparr> ta_id = player_id, name = ''Player '' @ str_int player_id, game_role = role \<rparr>)
            (players_by_id s),
        checked_observations := (checked_observations s)(player_id \<mapsto> 0) \<rparr>"

text \<open>
  \<open>setup\<close> (named \<open>setup_master\<close> below) and its loop over
  \<open>enumerate(zip(player_specs, self.player_models))\<close>: one player per pair, numbered
  from 0. A spec is the role name; a model is its name. Missing or empty specs are
  replaced by the dummy specs. The hooks \<open>_on_before_reset\<close> and \<open>_on_before_game\<close>
  do nothing in the base class.
\<close>

fun add_players :: "nat \<Rightarrow> (string \<times> string) list \<Rightarrow> 'g game_master \<Rightarrow> 'g game_master" where
  "add_players i [] s = s"
| "add_players i ((role, model) # rest) s = add_players (Suc i) rest (add_player role (int i) s)"

definition dummy_player_specs :: "nat \<Rightarrow> string list" where
  "dummy_player_specs n_players = map (\<lambda>i. ''Player '' @ str_int (int i)) [0..<n_players]"

definition setup_master :: "'g ta_state \<Rightarrow> string list \<Rightarrow> string list \<Rightarrow> 'g game_master" where
  "setup_master st0 player_specs player_models =
     (let specs = (if player_specs = [] then dummy_player_specs (length player_models) else player_specs)
      in add_players 0 (zip specs player_models) (init_master st0 (length player_models)))"

definition get_current_player :: "'g game_master \<Rightarrow> error + player_entry" where
  "get_current_player s =
     (case map_of (players_by_id s) (current_player_id (env_state s)) of
        None \<Rightarrow> Inl KeyError
      | Some p \<Rightarrow> Inr p)"

text \<open>\<open>get_context_for\<close> reads \<open>player.ta_id\<close>, which the string \<open>"GM"\<close> does not have.\<close>

definition get_context_for ::
  "'g collaborators \<Rightarrow> 'g game_master \<Rightarrow> player_entry \<Rightarrow> error + (string \<times> 'g game_master)" where
  "get_context_for K s p =
     (case p of
        GM \<Rightarrow> Inl AttributeError
      | PlayerObj pl \<Rightarrow>
          (case observation (STANDARD_GAME_PROMPT K) (env_state s) (logged_observation_count s) (ta_id pl) of
             Inl e \<Rightarrow> Inl e
           | Inr (context, cnt') \<Rightarrow> Inr (context, s\<lparr>logged_observation_count := cnt'\<rparr>)))"

definition observe ::
  "'g collaborators \<Rightarrow> 'g game_master \<Rightarrow> error + (player_entry \<times> string \<times> 'g game_master)" where
  "observe K s =
     (case get_current_player s of
        Inl e \<Rightarrow> Inl e
      | Inr p \<Rightarrow>
          (case get_context_for K s p of
             Inl e \<Rightarrow> Inl e
           | Inr (context, s') \<Rightarrow> Inr (p, context, s')))"

text \<open>
  \<open>TextArenaPlayer.perceive_context\<close>: the player is put into \<open>played_in_round\<close> and
  becomes \<open>last_player\<close>; the base class then logs the context.
\<close>

definition perceive_context :: "player \<Rightarrow> string \<Rightarrow> 'g game_master \<Rightarrow> 'g game_master" where
  "perceive_context pl context s =
     log_event (SendMessage ''GM'' (name pl) context)
       (s\<lparr> played_in_round := insert (ta_id pl) (played_in_round s),
           last_player := Some (ta_id pl) \<rparr>)"

text \<open>
  \<open>player(context)\<close>: the framework's \<open>Player.__call__\<close> perceives the context, generates
  the response and logs it. Calling the string \<open>"GM"\<close> raises \<open>TypeError\<close>.
\<close>

definition player_call ::
  "'g collaborators \<Rightarrow> 'g game_master \<Rightarrow> player_entry \<Rightarrow> string \<Rightarrow> error + (string \<times> 'g game_master)" where
  "player_call K s p context =
     (case p of
        GM \<Rightarrow> Inl TypeError
      | PlayerObj pl \<Rightarrow>
          (let s1 = perceive_context pl context s
           in case respond K s1 pl context of
                Inl e \<Rightarrow> Inl e
              | Inr response \<Rightarrow> Inr (response, log_event (SendMessage (name pl) ''GM'' response) s1)))"

definition start_next_round :: "'g game_master \<Rightarrow> bool" where
  "start_next_round s =
     (int (card (played_in_round s)) = int (length (players_by_id s)) - 1 \<and> \<not> request_violation s)"

definition prepare_next_round :: "'g game_master \<Rightarrow> 'g game_master" where
  "prepare_next_round s = log_next_round (s\<lparr>played_in_round := {}\<rparr>)"

text \<open>
  The loop of \<open>_check_move_validity\<close> over the unchecked observations; a 3-tuple is
  always truthy, and \<open>str(observation[1])\<close> is the message.
\<close>

definition invalid_move_marker :: string where
  "invalid_move_marker = ''attempted an invalid move''"

fun check_loop :: "observation list \<Rightarrow> bool" where
  "check_loop [] = False"
| "check_loop (ob # rest) =
     (if py_in invalid_move_marker (fst (snd ob)) then True else check_loop rest)"

definition check_move_validity :: "'g game_master \<Rightarrow> error + (bool \<times> 'g game_master)" where
  "check_move_validity s =
     (let player_id = current_player_id (env_state s)
      in case checked_observations s player_id of
           None \<Rightarrow> Inl KeyError
         | Some checked \<Rightarrow>
             (case observations (env_state s) player_id of
                None \<Rightarrow> Inl KeyError
              | Some obs \<Rightarrow>
                  let last_observations = drop checked obs;
                      s' = s\<lparr>checked_observations := (checked_observations s)(player_id \<mapsto> length obs)\<rparr>
                  in if check_loop last_observations
                     then Inr (True, count_request_violation s')
                     else Inr (False, s')))"

text \<open>Sequencing of fallible steps, and a dict subscript that raises \<open>KeyError\<close>.\<close>

definition bind :: "error + 'a \<Rightarrow> ('a \<Rightarrow> error + 'b) \<Rightarrow> error + 'b" where
  "bind m f = (case m of Inl e \<Rightarrow> Inl e | Inr a \<Rightarrow> f a)"

definition subscript :: "('k \<rightharpoonup> 'v) \<Rightarrow> 'k \<Rightarrow> error + 'v" where
  "subscript d k = (case d k of None \<Rightarrow> Inl KeyError | Some v \<Rightarrow> Inr v)"

text \<open>
  The loop of \<open>_after_game\<close> over the keys of \<open>players_by_id\<close>: the numeric reward is
  stored into the player's details dict (in place, so \<open>rewards[1]\<close> changes) and the
  details are logged.
\<close>

fun rewards_loop :: "int list \<Rightarrow> rewards \<Rightarrow> 'g game_master \<Rightarrow> error + (rewards \<times> 'g game_master)" where
  "rewards_loop [] rw s = Inr (rw, s)"
| "rewards_loop (player_id # rest) rw s =
     (if player_id = -1 then rewards_loop rest rw s
      else bind (subscript (snd rw) player_id) (\<lambda>player_rewards.
           bind (subscript (fst rw) player_id) (\<lambda>r.
             let player_rewards' = player_rewards(''reward'' \<mapsto> PNum r)
             in rewards_loop rest (fst rw, (snd rw)(player_id \<mapsto> player_rewards'))
                  (log_event (RewardsEvent player_rewards') s))))"

text \<open>\<open>'[GAME] ' + reason\<close> raises \<open>TypeError\<close> unless the reason is a string.\<close>

definition game_prefix :: "py_val \<Rightarrow> error + string" where
  "game_prefix v = (case v of PStr reason \<Rightarrow> Inr (''[GAME] '' @ reason) | _ \<Rightarrow> Inl TypeError)"

text \<open>\<open>self.get_current_player().name\<close>; the string \<open>"GM"\<close> has no such attribute.\<close>

definition current_player_name :: "'g game_master \<Rightarrow> error + string" where
  "current_player_name s =
     bind (get_current_player s) (\<lambda>p.
       case p of GM \<Rightarrow> Inl AttributeError | PlayerObj pl \<Rightarrow> Inr (name pl))"

text \<open>
  \<open>_after_game\<close>. \<open>rewards[1][self.last_player]\<close> with \<open>last_player\<close> still \<open>None\<close> is a
  missing key. The version entry written to the recorder's meta data and
  \<open>log_game_end\<close> touch nothing modelled here.
\<close>

definition after_game :: "'g collaborators \<Rightarrow> 'g game_master \<Rightarrow> error + 'g game_master" where
  "after_game K s =
     bind (env_close K (env_state s)) (\<lambda>(rewards, st').
       let s1 = s\<lparr>env_state := st', close_calls := close_calls s + 1\<rparr>
       in bind (case last_player s1 of None \<Rightarrow> Inl KeyError | Some lp \<Rightarrow> subscript (snd rewards) lp) (\<lambda>d.
          bind (subscript d ''reason'') (\<lambda>reason.
          bind (game_prefix reason) (\<lambda>last_message.
          bind (subscript d ''invalid_move'') (\<lambda>last_move_invalid.
            let s2 = (if truthy last_move_invalid then count_request_violation s1 else s1)
            in bind (current_player_name s2) (\<lambda>to.
               let s3 = log_event (SendMessage ''GM'' to last_message) s2
               in bind (rewards_loop (map fst (players_by_id s3)) rewards s3) (\<lambda>(rewards', s4).
                  let s5 = log_key ''ta_reward'' (LRewards (fst rewards')) s4;
                      s6 = log_key ''ta_reward_details'' (LDetails (snd rewards')) s5
                  in bind (on_after_game K rewards' s6) (\<lambda>kvs. Inr (log_keys kvs s6)))))))))"

text \<open>
  \<open>step\<close>. The flag is reset, the environment is stepped, the flag is set from
  \<open>_check_move_validity\<close> and \<open>done\<close> is stored; a non-empty \<open>info\<close> is logged
  (\<open>record_step_result\<close> is these assignments and the logging); then either the round
  bookkeeping or \<open>_after_game\<close> runs.
\<close>

definition record_step_result :: "bool \<Rightarrow> info \<Rightarrow> bool \<Rightarrow> 'g game_master \<Rightarrow> 'g game_master" where
  "record_step_result done info violation s1 =
     (let s2 = s1\<lparr>request_violation := violation, done_flag := done\<rparr>
      in if info \<noteq> [] then log_event (InfoEvent info) s2 else s2)"

definition step ::
  "'g collaborators \<Rightarrow> 'g game_master \<Rightarrow> string \<Rightarrow> error + ((bool \<times> info) \<times> 'g game_master)" where
  "step K s response =
     (let s0 = s\<lparr>request_violation := False\<rparr>
      in bind (env_step K (env_state s0) response) (\<lambda>(done, info, st').
         bind (check_move_validity (s0\<lparr>env_state := st'\<rparr>)) (\<lambda>(violation, s1).
           let s3 = record_step_result done info violation s1
           in if \<not> done then
                (if start_next_round s3 then Inr ((done, info), prepare_next_round s3)
                 else Inr ((done, info), s3))
              else bind (after_game K s3) (\<lambda>s4. Inr ((done, info), s4)))))"

text \<open>
  \<open>play\<close>: the loop runs until a step returns \<open>done\<close>. It need not terminate, so the
  result is optional: \<open>None\<close> is a loop that never ends, \<open>Some (Inl e)\<close> a raised
  exception, \<open>Some (Inr s)\<close> the state when \<open>play\<close> returns.
\<close>

partial_function (option) play ::
  "'g collaborators \<Rightarrow> 'g game_master \<Rightarrow> (error + 'g game_master) option" where
  "play K s =
     (case observe K s of
        Inl e \<Rightarrow> Some (Inl e)
      | Inr (p, context, s1) \<Rightarrow>
          (case player_call K s1 p context of
             Inl e \<Rightarrow> Some (Inl e)
           | Inr (response, s2) \<Rightarrow>
               (case step K s2 response of
                  Inl e \<Rightarrow> Some (Inl e)
                | Inr ((done, info), s3) \<Rightarrow> if done then Some (Inr s3) else play K s3)))"

section \<open>Subclasses of the game master\<close>

definition reward_for_player :: "rewards \<Rightarrow> int \<Rightarrow> error + real" where
  "reward_for_player rw player_id =
     (if fst rw player_id = None then Inl AssertionError
      else if snd rw player_id = None then Inl AssertionError
      else subscript (fst rw) player_id)"

text \<open>\<open>TextArenaGameMaster.prepare_metrics\<close>: the default metrics, in dict order.\<close>

definition prepare_metrics :: "(string \<times> log_val) list" where
  "prepare_metrics = [(METRIC_ABORTED, LInt 0), (METRIC_SUCCESS, LInt 0), (METRIC_LOSE, LInt 0)]"

text \<open>
  \<open>SinglePlayerMaster.prepare_metrics(numeric_reward)\<close>; \<open>if numeric_reward:\<close> is false
  for \<open>None\<close> and for 0.
\<close>

definition SinglePlayerMaster_prepare_metrics :: "real option \<Rightarrow> (string \<times> log_val) list" where
  "SinglePlayerMaster_prepare_metrics numeric_reward =
     (let metrics = prepare_metrics
      in case numeric_reward of
           None \<Rightarrow> metrics
         | Some r \<Rightarrow>
             if r \<noteq> 0 then
               (if r = -1 then
                  AList.update METRIC_LOSE (LInt 1) (AList.update METRIC_ABORTED (LInt 1) metrics)
                else if r = 1 then AList.update METRIC_SUCCESS (LInt 1) metrics
                else metrics)
             else metrics)"

definition SinglePlayerMaster_on_after_game ::
  "rewards \<Rightarrow> 'g game_master \<Rightarrow> error + (string \<times> log_val) list" where
  "SinglePlayerMaster_on_after_game rewards s =
     bind (reward_for_player rewards 0) (\<lambda>numeric_reward.
       Inr ((''numeric_reward'', LNum numeric_reward)
            # SinglePlayerMaster_prepare_metrics (Some numeric_reward)))"

definition TwoPlayerMaster_on_after_game ::
  "rewards \<Rightarrow> 'g game_master \<Rightarrow> error + (string \<times> log_val) list" where
  "TwoPlayerMaster_on_after_game rewards s =
     bind (case last_player s of None \<Rightarrow> Inl KeyError | Some lp \<Rightarrow> subscript (snd rewards) lp) (\<lambda>d.
     bind (subscript d ''invalid_move'') (\<lambda>last_move_invalid.
       if truthy last_move_invalid
       then Inr [(METRIC_ABORTED, LInt 1), (METRIC_SUCCESS, LInt 0), (METRIC_LOSE, LInt 1)]
       else Inr [(METRIC_ABORTED, LInt 0), (METRIC_SUCCESS, LInt 1), (METRIC_LOSE, LInt 0)]))"

section \<open>TextArenaBenchmark\<close>

text \<open>
  A game spec is a dict from field names to values (numbers, strings, \<open>None\<close>, lists
  and dicts, of which only the keys matter here). \<open>globals()\<close> of the benchmark module
  is a dict from names to objects: the master and scorer classes defined in
  \<open>submasters\<close> and \<open>metrics\<close>, the further public names the module defines or imports
  (also through the two star imports), and the names every module has.
\<close>

datatype spec_value = SNone | SInt int | SStr string | SList "string list" | SDict "string list"

type_synonym game_spec = "string \<rightharpoonup> spec_value"

fun spec_truthy :: "spec_value \<Rightarrow> bool" where
  "spec_truthy SNone = False"
| "spec_truthy (SInt i) = (i \<noteq> 0)"
| "spec_truthy (SStr x) = (x \<noteq> [])"
| "spec_truthy (SList xs) = (xs \<noteq> [])"
| "spec_truthy (SDict ks) = (ks \<noteq> [])"

datatype global_obj =
    TextArenaGameMaster
  | SinglePlayerMaster
  | MinesweeperMaster
  | WordleMaster
  | TwoPlayerMaster
  | BattleshipMaster
  | WordChainsMaster
  | TextArenaScorer
  | SinglePlayerScorer
  | TwoPlayerScorer
  | HangmanScorer
  | WordChainsScorer
  | BattleshipScorer
  | OtherGlobal string

definition other_global_names :: "string list" where
  "other_global_names =
     [''__name__'', ''__doc__'', ''__package__'', ''__loader__'', ''__spec__'', ''__file__'',
      ''__cached__'', ''__builtins__'',
      ''GameBenchmark'', ''GameSpec'', ''GameScorer'', ''BENCH_SCORE'', ''METRIC_ABORTED'',
      ''METRIC_SUCCESS'', ''METRIC_LOSE'', ''generate_instances'', ''os'', ''np'', ''abc'',
      ''List'', ''Dict'', ''Tuple'', ''logging'', ''logger'', ''module_logger'', ''Message'',
      ''Observations'', ''reward_for_player'', ''init_metrics'', ''TextArenaBenchmark'']"

definition module_globals :: "string \<rightharpoonup> global_obj" where
  "module_globals =
     map_of
       ([(''TextArenaGameMaster'', TextArenaGameMaster),
         (''SinglePlayerMaster'', SinglePlayerMaster),
         (''MinesweeperMaster'', MinesweeperMaster),
         (''WordleMaster'', WordleMaster),
         (''TwoPlayerMaster'', TwoPlayerMaster),
         (''BattleshipMaster'', BattleshipMaster),
         (''WordChainsMaster'', WordChainsMaster),
         (''TextArenaScorer'', TextArenaScorer),
         (''SinglePlayerScorer'', SinglePlayerScorer),
         (''TwoPlayerScorer'', TwoPlayerScorer),
         (''HangmanScorer'', HangmanScorer),
         (''WordChainsScorer'', WordChainsScorer),
         (''BattleshipScorer'', BattleshipScorer)]
        @ map (\<lambda>n. (n, OtherGlobal n)) other_global_names)"

text \<open>
  \<open>globals()[x]\<close>: a string is looked up, a number or \<open>None\<close> is a missing key, a list
  or dict is unhashable.
\<close>

definition globals_subscript :: "spec_value \<Rightarrow> error + global_obj" where
  "globals_subscript v =
     (case v of
        SStr n \<Rightarrow> subscript module_globals n
      | SInt _ \<Rightarrow> Inl KeyError
      | SNone \<Rightarrow> Inl KeyError
      | SList _ \<Rightarrow> Inl TypeError
      | SDict _ \<Rightarrow> Inl TypeError)"

record benchmark =
  master_class :: global_obj
  scorer_class :: global_obj

text \<open>
  What the constructor consumes from outside the repository: \<open>GameBenchmark.__init__\<close>
  of clemcore, the directory of the module file, \<open>os.path.exists\<close>, the constructor of
  the instance generator's base class, the two loops of \<open>on_generate\<close> that build the
  experiments with the base class's methods (over the environment registry, and over
  the dict of experiments), and \<open>store_file\<close>.
\<close>

record benchmark_deps =
  super_init :: "game_spec \<Rightarrow> error + unit"
  module_dir :: string
  path_exists :: "string \<Rightarrow> bool"
  new_generator :: "error + unit"
  registry_experiments :: "game_spec \<Rightarrow> error + unit"
  dict_experiments :: "game_spec \<Rightarrow> error + unit"
  store_file :: "string \<Rightarrow> error + unit"

text \<open>\<open>os.path.join\<close> of two components on a POSIX system.\<close>

definition path_join :: "string \<Rightarrow> string \<Rightarrow> string" where
  "path_join a b =
     (if (case b of [] \<Rightarrow> False | c # _ \<Rightarrow> c = CHR ''/'') then b
      else if a = [] \<or> last a = CHR ''/'' then a @ b
      else a @ ''/'' @ b)"

text \<open>\<open>x + '.json'\<close> raises \<open>TypeError\<close> unless \<open>x\<close> is a string.\<close>

definition add_json :: "spec_value \<Rightarrow> error + string" where
  "add_json v = (case v of SStr n \<Rightarrow> Inr (n @ ''.json'') | _ \<Rightarrow> Inl TypeError)"

text \<open>
  \<open>TextArenaInstanceGenerator.on_generate\<close>: the entry point must be given; a missing,
  falsy or list-valued \<open>experiments\<close> takes the experiments from the registry, a dict
  gives them itself, anything else is refused. No environment is made or reset here:
  the loops only fill in configuration dicts.
\<close>

definition on_generate :: "benchmark_deps \<Rightarrow> game_spec \<Rightarrow> error + unit" where
  "on_generate B kwargs =
     (if kwargs ''entry_point'' = None \<or> kwargs ''entry_point'' = Some SNone then Inl AssertionError
      else
        (let experiments = (case kwargs ''experiments'' of None \<Rightarrow> SNone | Some e \<Rightarrow> e)
         in if \<not> spec_truthy experiments \<or> (case experiments of SList _ \<Rightarrow> True | _ \<Rightarrow> False)
            then registry_experiments B kwargs
            else if (case experiments of SDict _ \<Rightarrow> True | _ \<Rightarrow> False)
            then dict_experiments B kwargs
            else Inl (ValueError
              ''experiments must be either None, a list of experiment_name levels, or a dict of experiment configs.'')))"

text \<open>
  \<open>generate_instances(**game)\<close>: the generator is made, the file name is computed, and
  \<open>generate(**game, filename=..., seed=SEED)\<close> is called, which is refused with
  \<open>TypeError\<close> when \<open>game\<close> itself has a key \<open>filename\<close> or \<open>seed\<close>; \<open>generate\<close> runs
  \<open>on_generate\<close> and stores the file.
\<close>

definition generate_instances :: "benchmark_deps \<Rightarrow> game_spec \<Rightarrow> error + unit" where
  "generate_instances B game =
     bind (new_generator B) (\<lambda>_.
     bind (subscript game ''instances'') (\<lambda>inst.
     bind (add_json inst) (\<lambda>filename.
       if game ''filename'' \<noteq> None \<or> game ''seed'' \<noteq> None then Inl TypeError
       else bind (on_generate B game) (\<lambda>_. store_file B filename))))"

text \<open>
  \<open>TextArenaBenchmark.__init__\<close>: the base class constructor, the choice of the master
  and of the scorer, the two lookups in \<open>globals()\<close>, and the instance file, which is
  generated when it does not exist. No environment exists at this point: one is made
  and reset only by \<open>setup\<close> of a game master created from the benchmark.
\<close>

definition choose_master :: "game_spec \<Rightarrow> error + spec_value" where
  "choose_master game_spec =
     (case game_spec ''master'' of
        Some m \<Rightarrow> Inr m
      | None \<Rightarrow>
          bind (subscript game_spec ''players'') (\<lambda>players.
            if players = SInt 1 then Inr (SStr ''SinglePlayerMaster'')
            else if players = SInt 2 then Inr (SStr ''TwoPlayerMaster'')
            else Inl (ValueError ''Multi-player games require a specified 'master' in the game spec.'')))"

definition choose_scorer :: "game_spec \<Rightarrow> error + spec_value" where
  "choose_scorer game_spec =
     (case game_spec ''scorer'' of
        Some m \<Rightarrow> Inr m
      | None \<Rightarrow>
          bind (subscript game_spec ''players'') (\<lambda>players.
            if players = SInt 1 then Inr (SStr ''SinglePlayerScorer'')
            else if players = SInt 2 then Inr (SStr ''TwoPlayerScorer'')
            else Inl (ValueError ''Multi-player games require a specified 'scorer' in the game spec.'')))"

definition benchmark_init :: "benchmark_deps \<Rightarrow> game_spec \<Rightarrow> error + benchmark" where
  "benchmark_init B game_spec =
     bind (super_init B game_spec) (\<lambda>_.
     bind (choose_master game_spec) (\<lambda>master.
     bind (choose_scorer game_spec) (\<lambda>scorer.
     bind (globals_subscript master) (\<lambda>mc.
     bind (globals_subscript scorer) (\<lambda>sc.
       let base_path = path_join (module_dir B) ''in''
       in bind (subscript game_spec ''instances'') (\<lambda>inst.
          bind (add_json inst) (\<lambda>file_name.
            let instance_file = path_join base_path file_name
            in if \<not> path_exists B instance_file
               then bind (generate_instances B game_spec) (\<lambda>_.
                      Inr \<lparr> master_class = mc, scorer_class = sc \<rparr>)
               else Inr \<lparr> master_class = mc, scorer_class = sc \<rparr>)))))))"

section \<open>Sessions of one player's cursor\<close>

text \<open>
  What happens to one player's observation list and cursor during a session: the
  environment appends observations to the list, and the game master calls
  \<open>observation\<close> for the player. \<open>run_ops\<close> runs such a sequence from an environment
  state and cursor dict and collects the slices the calls delivered (before the
  player's own actions are skipped) and the contents they returned.
\<close>

datatype cursor_op = Append "observation list" | Observe

definition append_obs :: "int \<Rightarrow> observation list \<Rightarrow> 'g ta_state \<Rightarrow> 'g ta_state" where
  "append_obs player_id new st =
     (case observations st player_id of
        None \<Rightarrow> st
      | Some obs \<Rightarrow> st\<lparr>observations := (observations st)(player_id \<mapsto> obs @ new)\<rparr>)"

definition delivered_slice :: "'g ta_state \<Rightarrow> (int \<rightharpoonup> nat) \<Rightarrow> int \<Rightarrow> observation list" where
  "delivered_slice st cnt player_id =
     (case (cnt player_id, observations st player_id) of
        (Some c, Some obs) \<Rightarrow> drop c obs
      | _ \<Rightarrow> [])"

fun run_ops ::
  "string \<Rightarrow> int \<Rightarrow> cursor_op list \<Rightarrow> 'g ta_state \<Rightarrow> (int \<rightharpoonup> nat) \<Rightarrow>
     error + (observation list list \<times> string list \<times> 'g ta_state \<times> (int \<rightharpoonup> nat))" where
  "run_ops prompt player_id [] st cnt = Inr ([], [], st, cnt)"
| "run_ops prompt player_id (Append new # ops) st cnt =
     run_ops prompt player_id ops (append_obs player_id new st) cnt"
| "run_ops prompt player_id (Observe # ops) st cnt =
     bind (observation prompt st cnt player_id) (\<lambda>(content, cnt').
     bind (run_ops prompt player_id ops st cnt') (\<lambda>(slices, contents, st', cnt'').
       Inr (delivered_slice st cnt player_id # slices, content # contents, st', cnt'')))"

text \<open>
  \<open>session_calls\<close> runs the same kind of sequence and keeps, for every call of
  \<open>observation\<close>, the cursor the wrapper held when it was called and the content the
  call returned. \<open>delivered_lines\<close> is what a call delivered: the returned content
  without the preamble, which is there exactly when that cursor was 0.
\<close>

definition cursor_of :: "(int \<rightharpoonup> nat) \<Rightarrow> int \<Rightarrow> nat" where
  "cursor_of cnt player_id = (case cnt player_id of Some c \<Rightarrow> c | None \<Rightarrow> 0)"

fun session_calls ::
  "string \<Rightarrow> int \<Rightarrow> cursor_op list \<Rightarrow> 'g ta_state \<Rightarrow> (int \<rightharpoonup> nat) \<Rightarrow>
     error + ((nat \<times> string) list \<times> 'g ta_state \<times> (int \<rightharpoonup> nat))" where
  "session_calls prompt player_id [] st cnt = Inr ([], st, cnt)"
| "session_calls prompt player_id (Append new # ops) st cnt =
     session_calls prompt player_id ops (append_obs player_id new st) cnt"
| "session_calls prompt player_id (Observe # ops) st cnt =
     bind (observation prompt st cnt player_id) (\<lambda>(content, cnt').
     bind (session_calls prompt player_id ops st cnt') (\<lambda>(calls, st', cnt'').
       Inr ((cursor_of cnt player_id, content) # calls, st', cnt'')))"

definition delivered_lines :: "string \<Rightarrow> nat \<times> string \<Rightarrow> string" where
  "delivered_lines prompt call =
     (case call of (c, content) \<Rightarrow> if c = 0 then drop (length prompt + 2) content else content)"

section \<open>Fields left alone by logging\<close>

text \<open>
  \<open>frame s s'\<close>: the round state, the player table, the flags and the cursors of \<open>s'\<close>
  are those of \<open>s\<close>.
\<close>

definition frame :: "'g game_master \<Rightarrow> 'g game_master \<Rightarrow> bool" where
  "frame s s' \<longleftrightarrow>
     played_in_round s' = played_in_round s \<and> players_by_id s' = players_by_id s \<and>
     current_round s' = current_round s \<and> last_player s' = last_player s \<and>
     request_violation s' = request_violation s \<and> done_flag s' = done_flag s \<and>
     checked_observations s' = checked_observations s \<and>
     logged_observation_count s' = logged_observation_count s"

section \<open>The claimed round and violation rules\<close>

text \<open>
  The total number of agents of a session, from the description: the player objects
  registered in \<open>players_by_id\<close> (the entry \<open>"GM"\<close> is no agent).
\<close>

definition agent_count :: "'g game_master \<Rightarrow> nat" where
  "agent_count s = length (filter (\<lambda>(k, e). e \<noteq> GM) (players_by_id s))"

text \<open>
  The violation flag after a step, and the flag as the description has it: whether an
  observation appended to the log of the acting agent (the current player before the
  step) since its last check carries the marker.
\<close>

definition violation_flag_after :: "'g collaborators \<Rightarrow> 'g game_master \<Rightarrow> string \<Rightarrow> bool option" where
  "violation_flag_after K s response =
     (case step K s response of Inl e \<Rightarrow> None | Inr (r, s') \<Rightarrow> Some (request_violation s'))"

definition acting_agent_marker :: "'g collaborators \<Rightarrow> 'g game_master \<Rightarrow> string \<Rightarrow> bool option" where
  "acting_agent_marker K s response =
     (case env_step K (env_state s) response of
        Inl e \<Rightarrow> None
      | Inr (done, info, st') \<Rightarrow>
          (let acting = current_player_id (env_state s)
           in case (checked_observations s acting, observations st' acting) of
                (Some c, Some obs) \<Rightarrow> Some (check_loop (drop c obs))
              | _ \<Rightarrow> None))"

text \<open>The request-violation count after a step.\<close>

definition violation_count_after :: "'g collaborators \<Rightarrow> 'g game_master \<Rightarrow> string \<Rightarrow> nat option" where
  "violation_count_after K s response =
     (case step K s response of Inl e \<Rightarrow> None | Inr (r, s') \<Rightarrow> Some (violated_request_count s'))"

text \<open>The player whose turn it is after the environment has taken an action.\<close>

definition current_player_after :: "'g collaborators \<Rightarrow> 'g game_master \<Rightarrow> string \<Rightarrow> int option" where
  "current_player_after K s response =
     (case env_step K (env_state s) response of
        Inl e \<Rightarrow> None
      | Inr (done, info, st') \<Rightarrow> Some (current_player_id st'))"

text \<open>The number of \<open>env.close()\<close> invocations after running \<open>_after_game\<close> twice.\<close>

definition close_calls_after_two_after_games :: "'g collaborators \<Rightarrow> 'g game_master \<Rightarrow> error + nat" where
  "close_calls_after_two_after_games K s =
     bind (after_game K s) (\<lambda>s1. bind (after_game K s1) (\<lambda>s2. Inr (close_calls s2)))"

section \<open>An example session\<close>

text \<open>
  A two-player environment state after \<open>reset\<close> and a few moves, used to evaluate the
  definitions on concrete inputs: player 0 has been sent the prompt, its own action and
  the action of player 1. The example environment rejects the action \<open>bad\<close> with a
  notice to the current player and keeps the turn; \<open>illegal\<close> ends the episode as an
  invalid move and \<open>resign\<close> ends it regularly; any other action is passed to the
  other player, whose turn it then is. \<open>internal\<close> records that the episode ended on
  an invalid move.
\<close>

definition example_log :: "observation list" where
  "example_log =
     [(-1, ''Your turn'', PROMPT), (0, ''move-x'', PLAYER_ACTION), (1, ''move-y'', PLAYER_ACTION)]"

definition example_state :: "bool ta_state" where
  "example_state =
     \<lparr> current_player_id = 0,
       observations = [0 \<mapsto> example_log, 1 \<mapsto> []],
       role_mapping = [-1 \<mapsto> ''GAME''],
       internal = False \<rparr>"

definition example_cursors :: "int \<rightharpoonup> nat" where
  "example_cursors = [0 \<mapsto> 0, 1 \<mapsto> 0]"

definition obs_of :: "'g ta_state \<Rightarrow> int \<Rightarrow> observation list" where
  "obs_of st k = (case observations st k of Some xs \<Rightarrow> xs | None \<Rightarrow> [])"

definition example_env_step :: "bool ta_state \<Rightarrow> string \<Rightarrow> error + (bool \<times> info \<times> bool ta_state)" where
  "example_env_step st action =
     (let cur = current_player_id st; other = 1 - cur
      in if action = ''bad'' then
           Inr (False, [],
                st\<lparr>observations := (observations st)(cur \<mapsto> obs_of st cur @
                     [(-1, ''Player '' @ str_int cur @ '' attempted an invalid move. Reason: no such move.'',
                       GAME_ADMIN)])\<rparr>)
         else if action = ''illegal'' then Inr (True, [], st\<lparr>internal := True\<rparr>)
         else if action = ''resign'' then Inr (True, [(''reason'', ''resigned'')], st)
         else Inr (False, [],
                st\<lparr>current_player_id := other,
                   observations := (observations st)(other \<mapsto> obs_of st other @
                     [(cur, action, PLAYER_ACTION)])\<rparr>))"

definition example_env_close :: "bool ta_state \<Rightarrow> error + (rewards \<times> bool ta_state)" where
  "example_env_close st =
     (let cur = current_player_id st; other = 1 - cur
      in Inr (([other \<mapsto> (if internal st then 0 else 1), cur \<mapsto> -1],
               [other \<mapsto> [''reason'' \<mapsto> PStr ''The opponent left the game.'',
                          ''invalid_move'' \<mapsto> PBool False],
                cur \<mapsto> [''reason'' \<mapsto> PStr ''The player left the game.'',
                        ''invalid_move'' \<mapsto> PBool (internal st)]]),
              st))"

definition example_collaborators ::
  "(int \<Rightarrow> string) \<Rightarrow> (rewards \<Rightarrow> bool game_master \<Rightarrow> error + (string \<times> log_val) list) \<Rightarrow>
     bool collaborators" where
  "example_collaborators script hook =
     \<lparr> env_step = example_env_step,
       env_close = example_env_close,
       respond = (\<lambda>s pl context. Inr (script (ta_id pl))),
       on_after_game = hook,
       STANDARD_GAME_PROMPT = ''P'' \<rparr>"

text \<open>Scripted players: what each player id answers, whatever the context.\<close>

definition example_script :: "int \<Rightarrow> string" where
  "example_script i = (if i = 0 then ''move-x'' else ''resign'')"

definition illegal_script :: "int \<Rightarrow> string" where
  "illegal_script i = ''illegal''"

text \<open>A session of two players and one of a single player, after \<open>setup\<close>.\<close>

definition example_two :: "bool game_master" where
  "example_two = setup_master example_state [] [''model-a'', ''model-b'']"

definition example_single :: "bool game_master" where
  "example_single = setup_master example_state [] [''model-a'']"

text \<open>An environment whose \<open>close()\<close> raises.\<close>

definition failing_env_close :: "bool ta_state \<Rightarrow> error + (rewards \<times> bool ta_state)" where
  "failing_env_close st = Inl EnvError"

text \<open>
  Surroundings of the benchmark constructor in which the base class constructor
  succeeds and the instance file \<open>instances.json\<close> exists.
\<close>

definition example_deps :: benchmark_deps where
  "example_deps =
     \<lparr> super_init = (\<lambda>game_spec. Inr ()),
       module_dir = ''/games/textarena'',
       path_exists = (\<lambda>p. p = ''/games/textarena/in/instances.json''),
       new_generator = Inr (),
       registry_experiments = (\<lambda>game. Inr ()),
       dict_experiments = (\<lambda>game. Inr ()),
       store_file = (\<lambda>filename. Inr ()) \<rparr>"

section \<open>Basic facts\<close>

lemma py_in_iff: "py_in pat s \<longleftrightarrow> (\<exists>u v. s = u @ pat @ v)"
proof (induction s)
  case Nil
  then show ?case by auto
next
  case (Cons c cs)
  show ?case
  proof
    assume "py_in pat (c # cs)"
    then consider "prefix pat (c # cs)" | "py_in pat cs" by auto
    then show "\<exists>u v. c # cs = u @ pat @ v"
    proof cases
      case 1
      then obtain v where "c # cs = pat @ v" by (auto simp: prefix_def)
      then have "c # cs = [] @ pat @ v" by simp
      then show ?thesis by blast
    next
      case 2
      with Cons.IH obtain u v where "cs = u @ pat @ v" by blast
      then have "c # cs = (c # u) @ pat @ v" by simp
      then show ?thesis by blast
    qed
  next
    assume "\<exists>u v. c # cs = u @ pat @ v"
    then obtain u v where uv: "c # cs = u @ pat @ v" by blast
    show "py_in pat (c # cs)"
    proof (cases u)
      case Nil
      with uv have "prefix pat (c # cs)" by (simp add: prefix_def)
      then show ?thesis by simp
    next
      case (Cons a u')
      with uv have "cs = u' @ pat @ v" by simp
      with Cons.IH have "py_in pat cs" by blast
      then show ?thesis by simp
    qed
  qed
qed

lemma convert_loop_eq:
  "convert_loop rm player_id content obs = content @ render_visible rm player_id obs"
  by (induction rm player_id content obs rule: convert_loop.induct)
     (auto simp: render_visible_def render_line_def visible_to_def)

lemma bind_Inl [simp]: "bind (Inl e) f = Inl e"
  by (simp add: bind_def)

lemma bind_Inr [simp]: "bind (Inr a) f = f a"
  by (simp add: bind_def)

lemma bind_eq_Inr: "bind m f = Inr r \<longleftrightarrow> (\<exists>a. m = Inr a \<and> f a = Inr r)"
  by (cases m) simp_all

lemma subscript_eq_Inr [simp]: "subscript d k = Inr v \<longleftrightarrow> d k = Some v"
  by (simp add: subscript_def split: option.splits)

lemma subscript_None [simp]: "d k = None \<Longrightarrow> subscript d k = Inl KeyError"
  by (simp add: subscript_def)

lemma str_int_examples: "str_int (-1) = ''-1''" "str_int 0 = ''0''" "str_int 1 = ''1''" "str_int 120 = ''120''"
  by (simp_all add: str_int_def str_nat.simps digit_char_def)

section \<open>The observation wrapper\<close>

lemma observation_eq:
  assumes "cnt player_id = Some c" and "observations st player_id = Some obs"
  shows "observation prompt st cnt player_id =
           Inr ((if c = 0 then prompt @ [CHR ''\<newline>'', CHR ''\<newline>''] else [])
                  @ render_visible (role_mapping st) player_id (drop c obs),
                cnt(player_id \<mapsto> c + length (drop c obs)))"
  using assms by (simp add: observation_def convert_obs_to_context_def convert_loop_eq Let_def)

lemma observation_Inr_iff:
  "(\<exists>r. observation prompt st cnt player_id = Inr r) \<longleftrightarrow>
     (\<exists>c obs. cnt player_id = Some c \<and> observations st player_id = Some obs)"
  by (auto simp: observation_def convert_obs_to_context_def Let_def split: option.splits)

lemma visible_to_eq:
  "visible_to player_id = (\<lambda>(sender_id, message, ty). \<not> (ty = PLAYER_ACTION \<and> sender_id = player_id))"
  by (auto simp: visible_to_def fun_eq_iff)

lemma render_line_eq:
  "render_line rm = (\<lambda>(sender_id, message, ty).
      ''['' @ (case rm sender_id of Some n \<Rightarrow> n | None \<Rightarrow> ''Player '' @ str_int sender_id)
      @ ''] '' @ message @ [CHR ''\<newline>''])"
  by (auto simp: render_line_def sender_name_def fun_eq_iff)

text \<open>
  C6. Whenever \<open>observation\<close> returns a context for a player, its content is the
  preamble part followed by one line per unseen observation, in order, leaving out
  exactly the observations that are player actions sent by the player itself; a line
  is \<open>[name] message\<close> and a newline, where the name is the entry of the role mapping
  for the sender id or, when there is none, \<open>Player\<close> followed by the id.
\<close>

theorem observation_skips_own_actions_and_renders_lines:
  assumes "observation prompt st cnt player_id = Inr (content, cnt')"
  shows "\<exists>c obs. cnt player_id = Some c \<and> observations st player_id = Some obs \<and>
     content =
       (if c = 0 then prompt @ [CHR ''\<newline>'', CHR ''\<newline>''] else []) @
       concat (map (\<lambda>(sender_id, message, ty).
                      ''['' @ (case role_mapping st sender_id of
                                 Some n \<Rightarrow> n
                               | None \<Rightarrow> ''Player '' @ str_int sender_id)
                      @ ''] '' @ message @ [CHR ''\<newline>''])
                 (filter (\<lambda>(sender_id, message, ty). \<not> (ty = PLAYER_ACTION \<and> sender_id = player_id))
                    (drop c obs)))"
proof -
  from assms obtain c obs where c: "cnt player_id = Some c" and obs: "observations st player_id = Some obs"
    using observation_Inr_iff[of prompt st cnt player_id] by blast
  from assms c obs
    observation_eq[where cnt=cnt and player_id=player_id and c=c and st=st and obs=obs and prompt=prompt]
  have "content = (if c = 0 then prompt @ [CHR ''\<newline>'', CHR ''\<newline>''] else [])
                  @ render_visible (role_mapping st) player_id (drop c obs)"
    by simp
  then show ?thesis
    using c obs unfolding render_visible_def visible_to_eq render_line_eq by blast
qed

theorem observation_skips_own_actions_and_renders_lines_witness:
  "observation ''P'' example_state example_cursors 0 =
     Inr (''P\<newline>\<newline>[GAME] Your turn\<newline>[Player 1] move-y\<newline>'', example_cursors(0 \<mapsto> 3))
   \<and> (\<exists>c obs. example_cursors 0 = Some c \<and> observations example_state 0 = Some obs \<and>
     ''P\<newline>\<newline>[GAME] Your turn\<newline>[Player 1] move-y\<newline>'' =
       (if c = 0 then ''P'' @ [CHR ''\<newline>'', CHR ''\<newline>''] else []) @
       concat (map (\<lambda>(sender_id, message, ty).
                      ''['' @ (case role_mapping example_state sender_id of
                                 Some n \<Rightarrow> n
                               | None \<Rightarrow> ''Player '' @ str_int sender_id)
                      @ ''] '' @ message @ [CHR ''\<newline>''])
                 (filter (\<lambda>(sender_id, message, ty). \<not> (ty = PLAYER_ACTION \<and> sender_id = (0::int)))
                    (drop c obs))))"
proof -
  have h: "observation ''P'' example_state example_cursors 0 =
     Inr (''P\<newline>\<newline>[GAME] Your turn\<newline>[Player 1] move-y\<newline>'', example_cursors(0 \<mapsto> 3))"
    by (simp add: observation_def convert_obs_to_context_def example_state_def example_cursors_def
        example_log_def sender_name_def str_int_examples Let_def eval_nat_numeral)
  from observation_skips_own_actions_and_renders_lines[OF h] h show ?thesis by blast
qed

lemma append_obs_Some:
  "observations st player_id = Some obs \<Longrightarrow>
     observations (append_obs player_id new st) player_id = Some (obs @ new)"
  by (simp add: append_obs_def)

lemma append_obs_role_mapping [simp]: "role_mapping (append_obs player_id new st) = role_mapping st"
  by (simp add: append_obs_def split: option.splits)

lemma delivered_slice_eq:
  "cnt player_id = Some c \<Longrightarrow> observations st player_id = Some obs \<Longrightarrow>
     delivered_slice st cnt player_id = drop c obs"
  by (simp add: delivered_slice_def)

lemma run_ops_Observe:
  assumes "cnt player_id = Some c" and "observations st player_id = Some obs"
  shows "run_ops prompt player_id (Observe # ops) st cnt =
     bind (run_ops prompt player_id ops st (cnt(player_id \<mapsto> c + length (drop c obs))))
       (\<lambda>(slices, contents, st', cnt'').
          Inr (drop c obs # slices,
               ((if c = 0 then prompt @ [CHR ''\<newline>'', CHR ''\<newline>''] else [])
                  @ render_visible (role_mapping st) player_id (drop c obs)) # contents,
               st', cnt''))"
  using assms observation_eq[where cnt=cnt and player_id=player_id and c=c and st=st and obs=obs and prompt=prompt]
  by (simp add: delivered_slice_eq)

lemma drop_take_prefix:
  assumes "prefix obs0 obs'" and "c0 \<le> length obs0" and "length obs0 \<le> c'"
  shows "drop c0 obs0 @ drop (length obs0) (take c' obs') = drop c0 (take c' obs')"
proof -
  from assms(1) obtain zs where "obs' = obs0 @ zs" by (auto simp: prefix_def)
  with assms(2,3) show ?thesis by simp
qed

lemma render_visible_append:
  "render_visible rm player_id (xs @ ys) = render_visible rm player_id xs @ render_visible rm player_id ys"
  by (simp add: render_visible_def)

lemma session_calls_Observe:
  assumes "cnt player_id = Some c" and "observations st player_id = Some obs"
  shows "session_calls prompt player_id (Observe # ops) st cnt =
     bind (session_calls prompt player_id ops st (cnt(player_id \<mapsto> c + length (drop c obs))))
       (\<lambda>(calls, st', cnt'').
          Inr ((c, (if c = 0 then prompt @ [CHR ''\<newline>'', CHR ''\<newline>''] else [])
                  @ render_visible (role_mapping st) player_id (drop c obs)) # calls,
               st', cnt''))"
  using assms observation_eq[where cnt=cnt and player_id=player_id and c=c and st=st and obs=obs and prompt=prompt]
  by (simp add: cursor_of_def)

lemma delivered_lines_preamble:
  "delivered_lines prompt
     (c, (if c = 0 then prompt @ [CHR ''\<newline>'', CHR ''\<newline>''] else []) @ body) = body"
  by (simp add: delivered_lines_def)

lemma session_calls_cursor:
  assumes "cnt player_id = Some c0" and "observations st player_id = Some obs0"
    and "c0 \<le> length obs0"
  shows "\<exists>calls st' cnt' c' obs'.
           session_calls prompt player_id ops st cnt = Inr (calls, st', cnt') \<and>
           cnt' player_id = Some c' \<and> observations st' player_id = Some obs' \<and>
           role_mapping st' = role_mapping st \<and>
           c0 \<le> c' \<and> c' \<le> length obs' \<and> prefix obs0 obs' \<and>
           sorted (map fst calls) \<and> (\<forall>c \<in> set (map fst calls). c0 \<le> c \<and> c \<le> c') \<and>
           concat (map (delivered_lines prompt) calls) =
             render_visible (role_mapping st) player_id (drop c0 (take c' obs')) \<and>
           (ops \<noteq> [] \<and> last ops = Observe \<longrightarrow> c' = length obs')"
  using assms
proof (induction ops arbitrary: st cnt c0 obs0)
  case Nil
  then show ?case by (simp add: render_visible_def)
next
  case (Cons op ops)
  show ?case
  proof (cases op)
    case (Append new)
    have o1: "observations (append_obs player_id new st) player_id = Some (obs0 @ new)"
      using Cons.prems(2) by (rule append_obs_Some)
    have le1: "c0 \<le> length (obs0 @ new)" using Cons.prems(3) by simp
    from Cons.IH[of cnt c0 "append_obs player_id new st" "obs0 @ new", OF Cons.prems(1) o1 le1]
    obtain calls st' cnt' c' obs' where
      r: "session_calls prompt player_id ops (append_obs player_id new st) cnt = Inr (calls, st', cnt')"
      and f: "cnt' player_id = Some c'" "observations st' player_id = Some obs'"
         "role_mapping st' = role_mapping (append_obs player_id new st)"
         "c0 \<le> c'" "c' \<le> length obs'" "prefix (obs0 @ new) obs'"
         "sorted (map fst calls)" "\<forall>c \<in> set (map fst calls). c0 \<le> c \<and> c \<le> c'"
         "concat (map (delivered_lines prompt) calls) =
             render_visible (role_mapping (append_obs player_id new st)) player_id (drop c0 (take c' obs'))"
         "ops \<noteq> [] \<and> last ops = Observe \<longrightarrow> c' = length obs'"
      by blast
    have p: "prefix obs0 obs'" using f(6) by (meson append_prefixD)
    have l: "(op # ops) \<noteq> [] \<and> last (op # ops) = Observe \<longrightarrow> c' = length obs'"
      using f(10) Append by (cases ops) auto
    show ?thesis using r f p l Append by simp
  next
    case Observe
    let ?c1 = "c0 + length (drop c0 obs0)"
    let ?cnt1 = "cnt(player_id \<mapsto> ?c1)"
    have c1: "?c1 = length obs0" using Cons.prems(3) by simp
    have k1: "?cnt1 player_id = Some (length obs0)" using c1 by simp
    from Cons.IH[of ?cnt1 "length obs0" st obs0, OF k1 Cons.prems(2) order_refl]
    obtain calls st' cnt' c' obs' where
      r: "session_calls prompt player_id ops st ?cnt1 = Inr (calls, st', cnt')"
      and f: "cnt' player_id = Some c'" "observations st' player_id = Some obs'"
         "role_mapping st' = role_mapping st"
         "length obs0 \<le> c'" "c' \<le> length obs'" "prefix obs0 obs'"
         "sorted (map fst calls)" "\<forall>c \<in> set (map fst calls). length obs0 \<le> c \<and> c \<le> c'"
         "concat (map (delivered_lines prompt) calls) =
             render_visible (role_mapping st) player_id (drop (length obs0) (take c' obs'))"
         "ops \<noteq> [] \<and> last ops = Observe \<longrightarrow> c' = length obs'"
      by blast
    let ?content = "(if c0 = 0 then prompt @ [CHR ''\<newline>'', CHR ''\<newline>''] else [])
                  @ render_visible (role_mapping st) player_id (drop c0 obs0)"
    have run: "session_calls prompt player_id (op # ops) st cnt = Inr ((c0, ?content) # calls, st', cnt')"
      using session_calls_Observe[of cnt player_id c0 st obs0 prompt ops] Cons.prems(1,2) r Observe
      by simp
    have e: "ops = [] \<Longrightarrow> c' = length obs'"
      using r f(1,2) k1 Cons.prems(2) by simp
    have l: "last (op # ops) = Observe \<longrightarrow> c' = length obs'"
      using e f(10) by (cases "ops = []") auto
    have le: "c0 \<le> c'" using Cons.prems(3) f(4) by simp
    have srt: "sorted (map fst ((c0, ?content) # calls))"
      using f(7,8) Cons.prems(3) by auto
    have bnd: "\<forall>c \<in> set (map fst ((c0, ?content) # calls)). c0 \<le> c \<and> c \<le> c'"
      using f(8) le Cons.prems(3) by auto
    have "concat (map (delivered_lines prompt) ((c0, ?content) # calls)) =
            render_visible (role_mapping st) player_id (drop c0 obs0) @
            render_visible (role_mapping st) player_id (drop (length obs0) (take c' obs'))"
      using f(9) delivered_lines_preamble[of prompt c0] by simp
    also have "\<dots> = render_visible (role_mapping st) player_id (drop c0 (take c' obs'))"
      using drop_take_prefix[OF f(6) Cons.prems(3) f(4)] render_visible_append[symmetric]
      by metis
    finally have cc: "concat (map (delivered_lines prompt) ((c0, ?content) # calls)) =
            render_visible (role_mapping st) player_id (drop c0 (take c' obs'))" .
    show ?thesis
      using run f(1,2,3,5,6) le srt bnd cc l by blast
  qed
qed

text \<open>
  C3. The Event Log of a player only grows (the environment appends to it). From a
  cursor that does not exceed the log, one call of \<open>observation\<close> returns exactly the
  rendering of the observations from the cursor on (the player's own actions left out)
  and moves the cursor to the length of the log. Over any sequence of appends and
  calls the cursors held at the calls never decrease and never exceed the log; what
  the calls returned, put together without the preambles, is exactly the rendering of
  the visible part of the log between the first and the last cursor, so no observation
  is delivered twice and none is left out; after a call that segment reaches the end
  of the log.
\<close>

theorem cursor_monotone_bounded_exact_delivery:
  assumes "cnt player_id = Some c0" and "observations st player_id = Some obs0"
    and "c0 \<le> length obs0"
  shows "observation prompt st cnt player_id =
           Inr ((if c0 = 0 then prompt @ [CHR ''\<newline>'', CHR ''\<newline>''] else [])
                  @ concat (map (render_line (role_mapping st))
                              (filter (visible_to player_id) (drop c0 obs0))),
                cnt(player_id \<mapsto> length obs0)) \<and>
         (\<exists>calls st' cnt' c' obs'.
           session_calls prompt player_id ops st cnt = Inr (calls, st', cnt') \<and>
           cnt' player_id = Some c' \<and> observations st' player_id = Some obs' \<and>
           c0 \<le> c' \<and> c' \<le> length obs' \<and>
           sorted (map fst calls) \<and> (\<forall>c \<in> set (map fst calls). c0 \<le> c \<and> c \<le> c') \<and>
           concat (map (delivered_lines prompt) calls) =
             concat (map (render_line (role_mapping st))
                       (filter (visible_to player_id) (drop c0 (take c' obs')))) \<and>
           (ops \<noteq> [] \<and> last ops = Observe \<longrightarrow> c' = length obs'))"
proof
  have "c0 + length (drop c0 obs0) = length obs0" using assms(3) by simp
  then show "observation prompt st cnt player_id =
           Inr ((if c0 = 0 then prompt @ [CHR ''\<newline>'', CHR ''\<newline>''] else [])
                  @ concat (map (render_line (role_mapping st))
                              (filter (visible_to player_id) (drop c0 obs0))),
                cnt(player_id \<mapsto> length obs0))"
    using assms(1,2)
      observation_eq[where cnt=cnt and player_id=player_id and c=c0 and st=st and obs=obs0 and prompt=prompt]
    by (simp add: render_visible_def)
next
  from session_calls_cursor[where cnt=cnt and player_id=player_id and ?c0.0=c0 and st=st
      and ?obs0.0=obs0 and prompt=prompt and ops=ops] assms
  show "\<exists>calls st' cnt' c' obs'.
           session_calls prompt player_id ops st cnt = Inr (calls, st', cnt') \<and>
           cnt' player_id = Some c' \<and> observations st' player_id = Some obs' \<and>
           c0 \<le> c' \<and> c' \<le> length obs' \<and>
           sorted (map fst calls) \<and> (\<forall>c \<in> set (map fst calls). c0 \<le> c \<and> c \<le> c') \<and>
           concat (map (delivered_lines prompt) calls) =
             concat (map (render_line (role_mapping st))
                       (filter (visible_to player_id) (drop c0 (take c' obs')))) \<and>
           (ops \<noteq> [] \<and> last ops = Observe \<longrightarrow> c' = length obs')"
    unfolding render_visible_def by blast
qed

lemma run_ops_tail:
  assumes "cnt player_id = Some 0" and "observations st player_id = Some []" and "new \<noteq> []"
  shows "\<exists>slices st' cnt'. run_ops prompt player_id [Append new, Observe, Observe] st cnt =
     Inr (slices,
          [prompt @ [CHR ''\<newline>'', CHR ''\<newline>''] @ render_visible (role_mapping st) player_id new, []],
          st', cnt')"
proof -
  let ?st1 = "append_obs player_id new st"
  have o1: "observations ?st1 player_id = Some new"
    using append_obs_Some[OF assms(2), of new] by simp
  let ?cnt1 = "cnt(player_id \<mapsto> 0 + length (drop 0 new))"
  have k1: "?cnt1 player_id = Some (length new)" by simp
  have ne: "length new \<noteq> 0" using assms(3) by simp
  have s2: "run_ops prompt player_id [Observe] ?st1 ?cnt1 =
     Inr ([drop (length new) new], [render_visible (role_mapping ?st1) player_id (drop (length new) new)],
          ?st1, ?cnt1(player_id \<mapsto> length new + length (drop (length new) new)))"
    using run_ops_Observe[of ?cnt1 player_id "length new" ?st1 new prompt "[]"] k1 o1 ne
    by simp
  have "run_ops prompt player_id [Observe, Observe] ?st1 cnt =
     Inr ([drop 0 new, drop (length new) new],
          [prompt @ [CHR ''\<newline>'', CHR ''\<newline>''] @ render_visible (role_mapping ?st1) player_id (drop 0 new),
           render_visible (role_mapping ?st1) player_id (drop (length new) new)],
          ?st1, ?cnt1(player_id \<mapsto> length new + length (drop (length new) new)))"
    using run_ops_Observe[of cnt player_id 0 ?st1 new prompt "[Observe]"] assms(1) o1 s2
    by simp
  then show ?thesis by (simp add: render_visible_def)
qed

lemma run_ops_empty_calls:
  assumes "cnt player_id = Some 0" and "observations st player_id = Some []" and "new \<noteq> []"
  shows "\<exists>slices st' cnt'.
     run_ops prompt player_id (replicate k Observe @ [Append new, Observe, Observe]) st cnt =
     Inr (slices,
          replicate k (prompt @ [CHR ''\<newline>'', CHR ''\<newline>''])
            @ [prompt @ [CHR ''\<newline>'', CHR ''\<newline>''] @ render_visible (role_mapping st) player_id new, []],
          st', cnt')"
  using assms(1)
proof (induction k arbitrary: cnt)
  case 0
  then show ?case using run_ops_tail[of cnt player_id st new prompt] assms(2,3) by simp
next
  case (Suc k)
  let ?cnt1 = "cnt(player_id \<mapsto> 0 + length (drop 0 ([]::observation list)))"
  have k1: "?cnt1 player_id = Some 0" by simp
  from Suc.IH[of ?cnt1, OF k1] obtain slices st' cnt' where
    r: "run_ops prompt player_id (replicate k Observe @ [Append new, Observe, Observe]) st ?cnt1 =
     Inr (slices,
          replicate k (prompt @ [CHR ''\<newline>'', CHR ''\<newline>''])
            @ [prompt @ [CHR ''\<newline>'', CHR ''\<newline>''] @ render_visible (role_mapping st) player_id new, []],
          st', cnt')" by blast
  show ?case
    using run_ops_Observe[of cnt player_id 0 st "[]" prompt "replicate k Observe @ [Append new, Observe, Observe]"]
      Suc.prems assms(2) r
    by (simp add: render_visible_def)
qed

text \<open>
  C9. The preamble is prepended exactly when the player's cursor is 0 at the call, and
  the cursor is 0 after a call only if it was 0 before and the log was empty. So after
  any number of calls on an empty log, each of which returns just the preamble, the
  first call that delivers observations still starts with the preamble, and the call
  after it does not.
\<close>

theorem preamble_while_cursor_is_zero:
  assumes "cnt player_id = Some c" and "observations st player_id = Some obs"
  shows "(\<exists>cnt'. observation prompt st cnt player_id =
            Inr ((if c = 0 then prompt @ [CHR ''\<newline>'', CHR ''\<newline>''] else [])
                   @ render_visible (role_mapping st) player_id (drop c obs), cnt') \<and>
            (cnt' player_id = Some 0 \<longleftrightarrow> c = 0 \<and> obs = [])) \<and>
         (c = 0 \<and> obs = [] \<and> new \<noteq> [] \<longrightarrow>
            (\<exists>slices st' cnt'.
               run_ops prompt player_id (replicate k Observe @ [Append new, Observe, Observe]) st cnt =
               Inr (slices,
                    replicate k (prompt @ [CHR ''\<newline>'', CHR ''\<newline>''])
                      @ [prompt @ [CHR ''\<newline>'', CHR ''\<newline>'']
                           @ render_visible (role_mapping st) player_id new, []],
                    st', cnt')))"
proof
  show "\<exists>cnt'. observation prompt st cnt player_id =
            Inr ((if c = 0 then prompt @ [CHR ''\<newline>'', CHR ''\<newline>''] else [])
                   @ render_visible (role_mapping st) player_id (drop c obs), cnt') \<and>
            (cnt' player_id = Some 0 \<longleftrightarrow> c = 0 \<and> obs = [])"
    using assms
      observation_eq[where cnt=cnt and player_id=player_id and c=c and st=st and obs=obs and prompt=prompt]
    by auto
next
  show "c = 0 \<and> obs = [] \<and> new \<noteq> [] \<longrightarrow>
            (\<exists>slices st' cnt'.
               run_ops prompt player_id (replicate k Observe @ [Append new, Observe, Observe]) st cnt =
               Inr (slices,
                    replicate k (prompt @ [CHR ''\<newline>'', CHR ''\<newline>''])
                      @ [prompt @ [CHR ''\<newline>'', CHR ''\<newline>'']
                           @ render_visible (role_mapping st) player_id new, []],
                    st', cnt'))"
    using assms run_ops_empty_calls[of cnt player_id st new prompt k] by blast
qed


theorem preamble_while_cursor_is_zero_witness:
  "example_cursors 1 = Some 0 \<and> observations example_state 1 = Some [] \<and>
   (\<exists>slices st' cnt'.
      run_ops ''P'' 1 (replicate 2 Observe @ [Append [(0, ''move-x'', PLAYER_ACTION)], Observe, Observe])
        example_state example_cursors =
      Inr (slices,
           [''P\<newline>\<newline>'', ''P\<newline>\<newline>'', ''P\<newline>\<newline>[Player 0] move-x\<newline>'', []],
           st', cnt'))"
proof -
  have h1: "example_cursors 1 = Some 0" by (simp add: example_cursors_def)
  have h2: "observations example_state 1 = Some []" by (simp add: example_state_def)
  have r: "role_mapping example_state 0 = None" by (simp add: example_state_def)
  from preamble_while_cursor_is_zero[where cnt=example_cursors and player_id=1 and c=0
      and st=example_state and obs="[]" and prompt="''P''" and k=2
      and new="[(0, ''move-x'', PLAYER_ACTION)]", OF h1 h2]
  show ?thesis using h1 h2 r
    by (simp add: render_visible_def render_line_def visible_to_def sender_name_def str_int_examples
          eval_nat_numeral)
qed

section \<open>The game master\<close>

lemma subscript_Some [simp]: "d k = Some v \<Longrightarrow> subscript d k = Inr v"
  by (simp add: subscript_def)

lemma frame_refl [simp]: "frame s s"
  by (simp add: frame_def)

lemma frame_trans: "frame s s1 \<Longrightarrow> frame s1 s2 \<Longrightarrow> frame s s2"
  by (simp add: frame_def)

lemma log_event_fields [simp]:
  "played_in_round (log_event e s) = played_in_round s"
  "players_by_id (log_event e s) = players_by_id s"
  "current_round (log_event e s) = current_round s"
  "last_player (log_event e s) = last_player s"
  "request_violation (log_event e s) = request_violation s"
  "done_flag (log_event e s) = done_flag s"
  "checked_observations (log_event e s) = checked_observations s"
  "logged_observation_count (log_event e s) = logged_observation_count s"
  "violated_request_count (log_event e s) = violated_request_count s"
  "close_calls (log_event e s) = close_calls s"
  "env_state (log_event e s) = env_state s"
  "interactions (log_event e s) = interactions s"
  "events (log_event e s) = events s @ [e]"
  by (simp_all add: log_event_def)

lemma log_key_fields [simp]:
  "played_in_round (log_key k v s) = played_in_round s"
  "players_by_id (log_key k v s) = players_by_id s"
  "current_round (log_key k v s) = current_round s"
  "last_player (log_key k v s) = last_player s"
  "request_violation (log_key k v s) = request_violation s"
  "done_flag (log_key k v s) = done_flag s"
  "checked_observations (log_key k v s) = checked_observations s"
  "logged_observation_count (log_key k v s) = logged_observation_count s"
  "violated_request_count (log_key k v s) = violated_request_count s"
  "close_calls (log_key k v s) = close_calls s"
  "env_state (log_key k v s) = env_state s"
  "events (log_key k v s) = events s"
  "interactions (log_key k v s) = (interactions s)(k \<mapsto> v)"
  by (simp_all add: log_key_def)

lemma count_request_violation_fields [simp]:
  "played_in_round (count_request_violation s) = played_in_round s"
  "players_by_id (count_request_violation s) = players_by_id s"
  "current_round (count_request_violation s) = current_round s"
  "last_player (count_request_violation s) = last_player s"
  "request_violation (count_request_violation s) = request_violation s"
  "done_flag (count_request_violation s) = done_flag s"
  "checked_observations (count_request_violation s) = checked_observations s"
  "logged_observation_count (count_request_violation s) = logged_observation_count s"
  "violated_request_count (count_request_violation s) = violated_request_count s + 1"
  "close_calls (count_request_violation s) = close_calls s"
  "env_state (count_request_violation s) = env_state s"
  "events (count_request_violation s) = events s"
  "interactions (count_request_violation s) = interactions s"
  by (simp_all add: count_request_violation_def)

lemma log_keys_fields [simp]:
  "played_in_round (log_keys kvs s) = played_in_round s"
  "players_by_id (log_keys kvs s) = players_by_id s"
  "current_round (log_keys kvs s) = current_round s"
  "last_player (log_keys kvs s) = last_player s"
  "request_violation (log_keys kvs s) = request_violation s"
  "done_flag (log_keys kvs s) = done_flag s"
  "checked_observations (log_keys kvs s) = checked_observations s"
  "logged_observation_count (log_keys kvs s) = logged_observation_count s"
  "violated_request_count (log_keys kvs s) = violated_request_count s"
  "close_calls (log_keys kvs s) = close_calls s"
  "env_state (log_keys kvs s) = env_state s"
  "events (log_keys kvs s) = events s"
  by (induction kvs s rule: log_keys.induct; simp)+

lemma rewards_loop_fields:
  assumes "rewards_loop ks rw s = Inr (rw', s')"
  shows "frame s s' \<and> violated_request_count s' = violated_request_count s \<and>
         close_calls s' = close_calls s \<and> env_state s' = env_state s \<and>
         interactions s' = interactions s \<and> fst rw' = fst rw"
  using assms
proof (induction ks rw s rule: rewards_loop.induct)
  case (1 rw s)
  then show ?case by simp
next
  case (2 player_id rest rw s)
  show ?case
  proof (cases "player_id = -1")
    case True
    with 2 show ?thesis by simp
  next
    case False
    with "2.prems" obtain player_rewards r where
      a: "snd rw player_id = Some player_rewards" "fst rw player_id = Some r"
      and b: "rewards_loop rest (fst rw, (snd rw)(player_id \<mapsto> player_rewards(''reward'' \<mapsto> PNum r)))
                (log_event (RewardsEvent (player_rewards(''reward'' \<mapsto> PNum r))) s) = Inr (rw', s')"
      by (auto simp: bind_eq_Inr Let_def)
    from "2.IH"(2)[OF False refl b] a
    show ?thesis by (simp add: frame_def)
  qed
qed

lemma check_move_validity_fields:
  assumes "check_move_validity s = Inr (v, s')"
  shows "played_in_round s' = played_in_round s \<and> players_by_id s' = players_by_id s \<and>
     current_round s' = current_round s \<and> last_player s' = last_player s \<and>
     request_violation s' = request_violation s \<and> done_flag s' = done_flag s \<and>
     logged_observation_count s' = logged_observation_count s \<and>
     close_calls s' = close_calls s \<and> env_state s' = env_state s \<and>
     interactions s' = interactions s \<and> events s' = events s \<and>
     violated_request_count s' = violated_request_count s + (if v then 1 else 0)"
  using assms
  by (auto simp: check_move_validity_def Let_def split: option.splits if_splits)

lemma check_move_validity_result:
  assumes "check_move_validity s = Inr (v, s')"
  shows "\<exists>c obs. checked_observations s (current_player_id (env_state s)) = Some c \<and>
           observations (env_state s) (current_player_id (env_state s)) = Some obs \<and>
           v = check_loop (drop c obs) \<and>
           checked_observations s' = (checked_observations s)(current_player_id (env_state s) \<mapsto> length obs)"
  using assms
  by (auto simp: check_move_validity_def Let_def split: option.splits if_splits)

lemma check_loop_iff:
  "check_loop obs \<longleftrightarrow> (\<exists>ob \<in> set obs. py_in invalid_move_marker (fst (snd ob)))"
  by (induction obs) auto

lemma bindE:
  assumes "bind m f = Inr r"
  obtains a where "m = Inr a" and "f a = Inr r"
  using assms by (auto simp: bind_eq_Inr)

lemma rewards_loop_fields':
  assumes "rewards_loop ks rw s = Inr p"
  shows "frame s (snd p) \<and> violated_request_count (snd p) = violated_request_count s \<and>
         close_calls (snd p) = close_calls s \<and> env_state (snd p) = env_state s \<and>
         interactions (snd p) = interactions s \<and> fst (fst p) = fst rw"
  using rewards_loop_fields[of ks rw s "fst p" "snd p"] assms by simp

lemma if_count_fields [simp]:
  "played_in_round (if c then count_request_violation s else s) = played_in_round s"
  "players_by_id (if c then count_request_violation s else s) = players_by_id s"
  "current_round (if c then count_request_violation s else s) = current_round s"
  "last_player (if c then count_request_violation s else s) = last_player s"
  "request_violation (if c then count_request_violation s else s) = request_violation s"
  "done_flag (if c then count_request_violation s else s) = done_flag s"
  "checked_observations (if c then count_request_violation s else s) = checked_observations s"
  "logged_observation_count (if c then count_request_violation s else s) = logged_observation_count s"
  "violated_request_count (if c then count_request_violation s else s) =
     violated_request_count s + (if c then 1 else 0)"
  "close_calls (if c then count_request_violation s else s) = close_calls s"
  "env_state (if c then count_request_violation s else s) = env_state s"
  "interactions (if c then count_request_violation s else s) = interactions s"
  by simp_all

lemma after_game_fields:
  assumes "after_game K s = Inr s'"
  shows "played_in_round s' = played_in_round s \<and> players_by_id s' = players_by_id s \<and>
     current_round s' = current_round s \<and> last_player s' = last_player s \<and>
     request_violation s' = request_violation s \<and> done_flag s' = done_flag s \<and>
     close_calls s' = close_calls s + 1 \<and>
     violated_request_count s \<le> violated_request_count s' \<and>
     checked_observations s' = checked_observations s"
  using assms unfolding after_game_def Let_def case_prod_unfold
  apply (elim bindE)
  apply (drule rewards_loop_fields')
  apply (clarsimp simp: frame_def)
  done


lemma after_game_violation:
  assumes "after_game K s = Inr s'" and "env_close K (env_state s) = Inr (rw, st')"
    and "last_player s = Some lp" and "snd rw lp = Some d" and "d ''invalid_move'' = Some iv"
  shows "violated_request_count s' = violated_request_count s + (if truthy iv then 1 else 0)"
  using assms unfolding after_game_def Let_def case_prod_unfold
  apply (elim bindE)
  apply (drule rewards_loop_fields')
  apply (clarsimp simp: frame_def)
  done

lemma after_game_hook:
  assumes "after_game K s = Inr s'" and "env_close K (env_state s) = Inr (rw, st')"
  shows "\<exists>rw' s6 kvs. on_after_game K rw' s6 = Inr kvs \<and> s' = log_keys kvs s6 \<and>
           fst rw' = fst rw \<and> last_player s6 = last_player s"
  using assms unfolding after_game_def Let_def case_prod_unfold
  apply (elim bindE)
  apply (drule rewards_loop_fields')
  apply (intro exI conjI)
  apply assumption
  apply (simp_all add: frame_def)
  done


lemma record_step_result_fields [simp]:
  "played_in_round (record_step_result done info v s) = played_in_round s"
  "players_by_id (record_step_result done info v s) = players_by_id s"
  "current_round (record_step_result done info v s) = current_round s"
  "last_player (record_step_result done info v s) = last_player s"
  "request_violation (record_step_result done info v s) = v"
  "done_flag (record_step_result done info v s) = done"
  "checked_observations (record_step_result done info v s) = checked_observations s"
  "logged_observation_count (record_step_result done info v s) = logged_observation_count s"
  "violated_request_count (record_step_result done info v s) = violated_request_count s"
  "close_calls (record_step_result done info v s) = close_calls s"
  "env_state (record_step_result done info v s) = env_state s"
  "interactions (record_step_result done info v s) = interactions s"
  by (simp_all add: record_step_result_def Let_def)

lemma step_Inr:
  assumes "step K s response = Inr ((done, info), s')"
  shows "\<exists>st1 v s1.
     env_step K (env_state s) response = Inr (done, info, st1) \<and>
     check_move_validity (s\<lparr>request_violation := False, env_state := st1\<rparr>) = Inr (v, s1) \<and>
     (if done then after_game K (record_step_result done info v s1) = Inr s'
      else s' = (if start_next_round (record_step_result done info v s1)
                 then prepare_next_round (record_step_result done info v s1)
                 else record_step_result done info v s1))"
  using assms unfolding step_def Let_def case_prod_unfold
  apply (elim bindE)
  apply (rule_tac x="snd (snd a)" in exI)
  apply (rule_tac x="fst aa" in exI)
  apply (rule_tac x="snd aa" in exI)
  apply (auto split: if_splits elim!: bindE)
  done

lemma update_fresh:
  "k \<notin> fst ` set al \<Longrightarrow> AList.update k v al = al @ [(k, v)]"
  by (induction al) auto

lemma add_players_players_by_id:
  assumes "\<forall>k \<in> fst ` set (players_by_id s). k < int i"
  shows "\<exists>new. players_by_id (add_players i ps s) = players_by_id s @ new \<and>
           length new = length ps \<and> (\<forall>(k, e) \<in> set new. e \<noteq> GM)"
  using assms
proof (induction i ps s rule: add_players.induct)
  case (1 i s)
  then show ?case by simp
next
  case (2 i role model rest s)
  let ?p = "PlayerObj \<lparr> ta_id = int i, name = ''Player '' @ str_int (int i), game_role = role \<rparr>"
  let ?s1 = "add_player role (int i) s"
  from "2.prems" have fresh: "int i \<notin> fst ` set (players_by_id s)" by auto
  then have p1: "players_by_id ?s1 = players_by_id s @ [(int i, ?p)]"
    by (simp add: add_player_def update_fresh)
  with "2.prems" have "\<forall>k \<in> fst ` set (players_by_id ?s1). k < int (Suc i)" by auto
  from "2.IH"[OF this] obtain new where
    n: "players_by_id (add_players (Suc i) rest ?s1) = players_by_id ?s1 @ new"
       "length new = length rest" "\<forall>(k, e) \<in> set new. e \<noteq> GM" by blast
  have "players_by_id (add_players i ((role, model) # rest) s) = players_by_id s @ ((int i, ?p) # new)"
    using n(1) p1 by simp
  moreover have "length ((int i, ?p) # new) = length ((role, model) # rest)" using n(2) by simp
  moreover have "\<forall>(k, e) \<in> set ((int i, ?p) # new). e \<noteq> GM" using n(3) by simp
  ultimately show ?case by blast
qed

lemma setup_master_agents:
  "int (length (players_by_id (setup_master st0 player_specs player_models))) - 1 =
     int (agent_count (setup_master st0 player_specs player_models))"
proof -
  let ?specs = "if player_specs = [] then dummy_player_specs (length player_models) else player_specs"
  let ?s0 = "init_master st0 (length player_models)"
  have "\<forall>k \<in> fst ` set (players_by_id ?s0). k < int 0" by (simp add: init_master_def)
  from add_players_players_by_id[OF this, of "zip ?specs player_models"] obtain new where
    n: "players_by_id (add_players 0 (zip ?specs player_models) ?s0) = players_by_id ?s0 @ new"
       "\<forall>(k, e) \<in> set new. e \<noteq> GM" by blast
  have f: "filter (\<lambda>(k, e). e \<noteq> GM) new = new" using n(2) by (auto simp: filter_id_conv)
  have "players_by_id (setup_master st0 player_specs player_models) = (-1, GM) # new"
    using n(1) by (simp add: setup_master_def Let_def init_master_def)
  then show ?thesis using f by (simp add: agent_count_def)
qed

lemma prepare_next_round_fields [simp]:
  "played_in_round (prepare_next_round s) = {}"
  "current_round (prepare_next_round s) = current_round s + 1"
  "request_violation (prepare_next_round s) = request_violation s"
  "last_player (prepare_next_round s) = last_player s"
  "players_by_id (prepare_next_round s) = players_by_id s"
  "close_calls (prepare_next_round s) = close_calls s"
  "violated_request_count (prepare_next_round s) = violated_request_count s"
  "checked_observations (prepare_next_round s) = checked_observations s"
  by (simp_all add: prepare_next_round_def log_next_round_def)

lemma step_not_done:
  assumes "step K s response = Inr ((False, info), s')"
  shows "\<exists>s3. played_in_round s3 = played_in_round s \<and> players_by_id s3 = players_by_id s \<and>
           current_round s3 = current_round s \<and> last_player s3 = last_player s \<and>
           close_calls s3 = close_calls s \<and>
           s' = (if start_next_round s3 then prepare_next_round s3 else s3)"
proof -
  from step_Inr[OF assms] obtain st1 v s1 where
    c: "check_move_validity (s\<lparr>request_violation := False, env_state := st1\<rparr>) = Inr (v, s1)"
    and e: "s' = (if start_next_round (record_step_result False info v s1)
                 then prepare_next_round (record_step_result False info v s1)
                 else record_step_result False info v s1)"
    by auto
  from check_move_validity_fields[OF c] e show ?thesis
    by (intro exI[of _ "record_step_result False info v s1"]) simp
qed

text \<open>
  C1. In a session set up by \<open>setup\<close>, consider a step whose environment call returns
  \<open>done = false\<close>. If the size of the acted-set equals the number of agents and the
  step raised no violation flag, the acted-set is cleared and the round counter
  advances by one; otherwise (in particular when the step raised the flag) the
  acted-set and the round counter are unchanged.
\<close>

theorem round_completes_iff_all_acted_and_no_violation:
  assumes "step K s response = Inr ((False, info), s')"
    and "players_by_id s = players_by_id (setup_master st0 player_specs player_models)"
  shows "(card (played_in_round s) = agent_count s \<and> \<not> request_violation s'
            \<longrightarrow> played_in_round s' = {} \<and> current_round s' = current_round s + 1) \<and>
         (\<not> (card (played_in_round s) = agent_count s \<and> \<not> request_violation s')
            \<longrightarrow> played_in_round s' = played_in_round s \<and> current_round s' = current_round s)"
proof -
  from step_not_done[OF assms(1)] obtain s3 where
    f: "played_in_round s3 = played_in_round s" "players_by_id s3 = players_by_id s"
       "current_round s3 = current_round s"
    and e: "s' = (if start_next_round s3 then prepare_next_round s3 else s3)" by blast
  have a: "agent_count s = agent_count (setup_master st0 player_specs player_models)"
    using assms(2) by (simp add: agent_count_def)
  have l: "int (length (players_by_id s)) - 1 = int (agent_count s)"
    using setup_master_agents[of st0 player_specs player_models] assms(2) a by simp
  have rv: "request_violation s' = request_violation s3" using e by simp
  have "start_next_round s3 \<longleftrightarrow> card (played_in_round s) = agent_count s \<and> \<not> request_violation s'"
    using f l rv by (simp add: start_next_round_def)
  then show ?thesis using e f by auto
qed


text \<open>
  What \<open>step\<close> does with the flag: the observations inspected are those of the player
  that is current after the environment step, from that player's check cursor on; the
  flag after the step is true exactly when the message of one of them contains the
  marker, and the player's check cursor is moved to the end of its observations.
\<close>

lemma step_flag:
  assumes "step K s response = Inr ((done, info), s')"
  shows "\<exists>st1 c obs.
     env_step K (env_state s) response = Inr (done, info, st1) \<and>
     checked_observations s (current_player_id st1) = Some c \<and>
     observations st1 (current_player_id st1) = Some obs \<and>
     request_violation s' = check_loop (drop c obs) \<and>
     checked_observations s' = (checked_observations s)(current_player_id st1 \<mapsto> length obs)"
proof -
  from step_Inr[OF assms] obtain st1 v s1 where
    e: "env_step K (env_state s) response = Inr (done, info, st1)"
    and c: "check_move_validity (s\<lparr>request_violation := False, env_state := st1\<rparr>) = Inr (v, s1)"
    and r: "if done then after_game K (record_step_result done info v s1) = Inr s'
      else s' = (if start_next_round (record_step_result done info v s1)
                 then prepare_next_round (record_step_result done info v s1)
                 else record_step_result done info v s1)"
    by blast
  have "request_violation s' = v \<and> checked_observations s' = checked_observations s1"
  proof (cases "done")
    case True
    with r have "after_game K (record_step_result done info v s1) = Inr s'" by simp
    from after_game_fields[OF this] show ?thesis by simp
  next
    case False
    with r show ?thesis by simp
  qed
  moreover from check_move_validity_result[OF c] obtain c0 obs where
    "checked_observations s (current_player_id st1) = Some c0"
    "observations st1 (current_player_id st1) = Some obs" "v = check_loop (drop c0 obs)"
    "checked_observations s1 = (checked_observations s)(current_player_id st1 \<mapsto> length obs)"
    by auto
  ultimately show ?thesis using e by auto
qed

lemma step_ignores_old_flag:
  "step K (s\<lparr>request_violation := b\<rparr>) response = step K s response"
  by (simp add: step_def)

text \<open>
  C5. When a step returns \<open>done = true\<close> and the details returned by \<open>close()\<close> mark
  \<open>invalid_move\<close> as true for the last actor, the request-violation counter is
  advanced by at least one, while the round counter and the acted-set stay as they
  were.
\<close>

theorem final_invalid_move_is_counted:
  assumes "step K s response = Inr ((True, info), s')"
    and "env_step K (env_state s) response = Inr (True, info, st1)"
    and "env_close K st1 = Inr ((rw0, rw1), st2)"
    and "last_player s = Some lp" and "rw1 lp = Some d"
    and "d ''invalid_move'' = Some iv" and "truthy iv"
  shows "violated_request_count s + 1 \<le> violated_request_count s' \<and>
         current_round s' = current_round s \<and> played_in_round s' = played_in_round s"
proof -
  from step_Inr[OF assms(1)] assms(2) obtain v s1 where
    c: "check_move_validity (s\<lparr>request_violation := False, env_state := st1\<rparr>) = Inr (v, s1)"
    and a: "after_game K (record_step_result True info v s1) = Inr s'"
    by auto
  let ?s3 = "record_step_result True info v s1"
  note cf = check_move_validity_fields[OF c]
  have e: "env_close K (env_state ?s3) = Inr ((rw0, rw1), st2)" using cf assms(3) by simp
  have l: "last_player ?s3 = Some lp" using cf assms(4) by simp
  have "violated_request_count s' = violated_request_count ?s3 + (if truthy iv then 1 else 0)"
    using after_game_violation[OF a e l] assms(5,6) by simp
  moreover have "violated_request_count s \<le> violated_request_count ?s3" using cf by simp
  ultimately have "violated_request_count s + 1 \<le> violated_request_count s'"
    using assms(7) by simp
  then show ?thesis using after_game_fields[OF a] cf by simp
qed


lemma observe_fields:
  assumes "observe K s = Inr (p, context, s1)"
  shows "played_in_round s1 = played_in_round s \<and> last_player s1 = last_player s \<and>
         close_calls s1 = close_calls s \<and> players_by_id s1 = players_by_id s \<and>
         current_round s1 = current_round s \<and> env_state s1 = env_state s \<and>
         map_of (players_by_id s) (current_player_id (env_state s)) = Some p"
  using assms
  by (auto simp: observe_def get_current_player_def get_context_for_def
           split: option.splits sum.splits player_entry.splits)

lemma perceive_context_fields [simp]:
  "played_in_round (perceive_context pl context s) = insert (ta_id pl) (played_in_round s)"
  "last_player (perceive_context pl context s) = Some (ta_id pl)"
  "close_calls (perceive_context pl context s) = close_calls s"
  "players_by_id (perceive_context pl context s) = players_by_id s"
  "current_round (perceive_context pl context s) = current_round s"
  "env_state (perceive_context pl context s) = env_state s"
  by (simp_all add: perceive_context_def)

lemma player_call_fields:
  assumes "player_call K s p context = Inr (response, s2)"
  shows "\<exists>pl. p = PlayerObj pl \<and>
           respond K (perceive_context pl context s) pl context = Inr response \<and>
           played_in_round s2 = insert (ta_id pl) (played_in_round s) \<and>
           last_player s2 = Some (ta_id pl) \<and> close_calls s2 = close_calls s \<and>
           current_round s2 = current_round s"
  using assms
  by (auto simp: player_call_def Let_def split: player_entry.splits sum.splits)

lemma step_close_calls:
  assumes "step K s response = Inr ((done, info), s')"
  shows "close_calls s' = close_calls s + (if done then 1 else 0) \<and>
         last_player s' = last_player s"
proof -
  from step_Inr[OF assms] obtain st1 v s1 where
    c: "check_move_validity (s\<lparr>request_violation := False, env_state := st1\<rparr>) = Inr (v, s1)"
    and r: "if done then after_game K (record_step_result done info v s1) = Inr s'
      else s' = (if start_next_round (record_step_result done info v s1)
                 then prepare_next_round (record_step_result done info v s1)
                 else record_step_result done info v s1)"
    by blast
  note cf = check_move_validity_fields[OF c]
  show ?thesis
  proof (cases "done")
    case True
    with r have "after_game K (record_step_result done info v s1) = Inr s'" by simp
    from after_game_fields[OF this] cf True show ?thesis by simp
  next
    case False
    with r cf show ?thesis by simp
  qed
qed

text \<open>
  C10. In one iteration of the play loop, fetching the context changes neither the
  acted-set nor the last actor; the player is in the acted-set and is the last actor
  in the state in which its response is generated, hence before its action is stepped;
  re-observing a player already in the acted-set leaves the size of the set unchanged;
  and after the step, also one that ends the episode, the player is still the last
  actor.
\<close>

theorem acted_and_last_actor_set_before_step:
  assumes "observe K s = Inr (p, context, s1)"
    and "player_call K s1 p context = Inr (response, s2)"
    and "step K s2 response = Inr ((done, info), s3)"
  shows "\<exists>pl. p = PlayerObj pl \<and>
           played_in_round s1 = played_in_round s \<and> last_player s1 = last_player s \<and>
           respond K (perceive_context pl context s1) pl context = Inr response \<and>
           ta_id pl \<in> played_in_round (perceive_context pl context s1) \<and>
           last_player (perceive_context pl context s1) = Some (ta_id pl) \<and>
           played_in_round s2 = insert (ta_id pl) (played_in_round s) \<and>
           last_player s2 = Some (ta_id pl) \<and>
           (ta_id pl \<in> played_in_round s \<longrightarrow> card (played_in_round s2) = card (played_in_round s)) \<and>
           last_player s3 = Some (ta_id pl)"
proof -
  note o = observe_fields[OF assms(1)]
  from player_call_fields[OF assms(2)] obtain pl where
    pc: "p = PlayerObj pl" "respond K (perceive_context pl context s1) pl context = Inr response"
        "played_in_round s2 = insert (ta_id pl) (played_in_round s1)"
        "last_player s2 = Some (ta_id pl)" by blast
  note st = step_close_calls[OF assms(3)]
  have "ta_id pl \<in> played_in_round s \<longrightarrow> card (played_in_round s2) = card (played_in_round s)"
    using pc(3) o by (simp add: insert_absorb)
  then show ?thesis using o pc st by simp
qed

lemma play_close_calls:
  assumes "play K s = Some r"
  shows "\<forall>s'. r = Inr s' \<longrightarrow> close_calls s' = close_calls s + 1"
proof (rule play.raw_induct[where P="\<lambda>K s r. \<forall>s'. r = Inr s' \<longrightarrow> close_calls s' = close_calls s + 1",
      OF _ assms], goal_cases)
  case (1 play' K s r)
  note IH = "1"(1) and body = "1"(2)
  show ?case
  proof (intro allI impI)
    fix s' assume r: "r = Inr s'"
    from body r obtain p ctx s1 where o: "observe K s = Inr (p, ctx, s1)"
      by (cases "observe K s") (auto split: prod.splits)
    from body r o obtain response s2 where pc: "player_call K s1 p ctx = Inr (response, s2)"
      by (cases "player_call K s1 p ctx") (auto split: prod.splits)
    from body r o pc obtain dn info s3 where st: "step K s2 response = Inr ((dn, info), s3)"
      by (cases "step K s2 response") (auto split: prod.splits)
    have c2: "close_calls s2 = close_calls s"
      using observe_fields[OF o] player_call_fields[OF pc] by auto
    note sc = step_close_calls[OF st]
    show "close_calls s' = close_calls s + 1"
    proof (cases dn)
      case True
      with body r o pc st have "s' = s3" by simp
      with sc True c2 show ?thesis by simp
    next
      case False
      with body r o pc st have "play' K s3 = Some (Inr s')" by simp
      from IH[OF this] have "close_calls s' = close_calls s3 + 1" by simp
      with sc False c2 show ?thesis by simp
    qed
  qed
qed

lemma after_game_calls_close:
  assumes "after_game K s = Inr s2"
  shows "\<exists>rw st'. env_close K (env_state s) = Inr (rw, st')"
  using assms unfolding after_game_def
  by (cases "env_close K (env_state s)") auto

lemma after_game_close_fails:
  assumes "env_close K (env_state s) = Inl e"
  shows "after_game K s = Inl e"
  using assms by (simp add: after_game_def)

text \<open>
  C4, as amended. When \<open>play\<close> returns, \<open>env.close()\<close> has been invoked exactly once
  during it; a step invokes it once if the environment reports \<open>done = true\<close> and not
  at all otherwise. The game master keeps no once-only guard: every \<open>_after_game\<close>
  that returns has called \<open>close()\<close>, and \<open>_after_game\<close> fails with the environment's
  error when that call fails; so when a second \<open>_after_game\<close> in the same session
  returns, \<open>close()\<close> has been called again and two invocations are counted.
\<close>

theorem close_invoked_once_by_play:
  "(play K s = Some (Inr s') \<longrightarrow> close_calls s' = close_calls s + 1) \<and>
   (step K s response = Inr ((dn, info), s1) \<longrightarrow>
      close_calls s1 = close_calls s + (if dn then 1 else 0)) \<and>
   (after_game K s = Inr s2 \<longrightarrow>
      (\<exists>rw st'. env_close K (env_state s) = Inr (rw, st')) \<and> close_calls s2 = close_calls s + 1) \<and>
   (env_close K (env_state s) = Inl e \<longrightarrow> after_game K s = Inl e) \<and>
   (after_game K s = Inr s2 \<and> after_game K s2 = Inr s3 \<longrightarrow>
      (\<exists>rw st'. env_close K (env_state s2) = Inr (rw, st')) \<and> close_calls s3 = close_calls s + 2)"
proof (intro conjI impI)
  assume "play K s = Some (Inr s')"
  then show "close_calls s' = close_calls s + 1" using play_close_calls[of K s "Inr s'"] by blast
next
  assume "step K s response = Inr ((dn, info), s1)"
  then show "close_calls s1 = close_calls s + (if dn then 1 else 0)"
    using step_close_calls[of K s response dn info s1] by blast
next
  assume "after_game K s = Inr s2"
  then show "\<exists>rw st'. env_close K (env_state s) = Inr (rw, st')" by (rule after_game_calls_close)
next
  assume "after_game K s = Inr s2"
  from after_game_fields[OF this] show "close_calls s2 = close_calls s + 1" by simp
next
  assume "env_close K (env_state s) = Inl e"
  then show "after_game K s = Inl e" by (rule after_game_close_fails)
next
  assume "after_game K s = Inr s2 \<and> after_game K s2 = Inr s3"
  then show "\<exists>rw st'. env_close K (env_state s2) = Inr (rw, st')"
    using after_game_calls_close[of K s2 s3] by blast
next
  assume a: "after_game K s = Inr s2 \<and> after_game K s2 = Inr s3"
  then have "close_calls s2 = close_calls s + 1" "close_calls s3 = close_calls s2 + 1"
    using after_game_fields[of K s s2] after_game_fields[of K s2 s3] by simp_all
  then show "close_calls s3 = close_calls s + 2" by simp
qed

lemma metric_keys_distinct:
  "METRIC_ABORTED \<noteq> METRIC_SUCCESS" "METRIC_ABORTED \<noteq> METRIC_LOSE" "METRIC_SUCCESS \<noteq> METRIC_LOSE"
  "METRIC_LOSE \<noteq> METRIC_ABORTED" "METRIC_LOSE \<noteq> METRIC_SUCCESS" "METRIC_SUCCESS \<noteq> METRIC_ABORTED"
  by (simp_all add: METRIC_ABORTED_def METRIC_SUCCESS_def METRIC_LOSE_def)

lemma SinglePlayerMaster_prepare_metrics_minus_one:
  "SinglePlayerMaster_prepare_metrics (Some (-1)) =
     [(METRIC_ABORTED, LInt 1), (METRIC_SUCCESS, LInt 0), (METRIC_LOSE, LInt 1)]"
  by (simp add: SinglePlayerMaster_prepare_metrics_def prepare_metrics_def metric_keys_distinct)

text \<open>
  C7. With the single-player master, when the final step returns \<open>done = true\<close>, the
  details of \<open>close()\<close> mark the last actor's move as invalid and the numeric reward of
  player 0 is -1, the logged metrics are aborted = 1 and lose = 1 (and success = 0),
  the request-violation count is at least 1, and that step invoked \<open>close()\<close> once.
\<close>

theorem single_player_final_violation_outcome:
  assumes "on_after_game K = SinglePlayerMaster_on_after_game"
    and "step K s response = Inr ((True, info), s')"
    and "env_step K (env_state s) response = Inr (True, info, st1)"
    and "env_close K st1 = Inr ((rw0, rw1), st2)"
    and "rw0 0 = Some (-1)"
    and "last_player s = Some lp" and "rw1 lp = Some d"
    and "d ''invalid_move'' = Some iv" and "truthy iv"
  shows "interactions s' METRIC_ABORTED = Some (LInt 1) \<and>
         interactions s' METRIC_LOSE = Some (LInt 1) \<and>
         interactions s' METRIC_SUCCESS = Some (LInt 0) \<and>
         1 \<le> violated_request_count s' \<and>
         close_calls s' = close_calls s + 1"
proof -
  from step_Inr[OF assms(2)] assms(3) obtain v s1 where
    c: "check_move_validity (s\<lparr>request_violation := False, env_state := st1\<rparr>) = Inr (v, s1)"
    and a: "after_game K (record_step_result True info v s1) = Inr s'"
    by auto
  let ?s3 = "record_step_result True info v s1"
  note cf = check_move_validity_fields[OF c]
  have e: "env_close K (env_state ?s3) = Inr ((rw0, rw1), st2)" using cf assms(4) by simp
  have l: "last_player ?s3 = Some lp" using cf assms(6) by simp
  have "violated_request_count s' = violated_request_count ?s3 + (if truthy iv then 1 else 0)"
    using after_game_violation[OF a e l] assms(7,8) by simp
  then have viol: "1 \<le> violated_request_count s'" using assms(9) by simp
  from after_game_hook[OF a e] obtain rw' s6 kvs where
    h: "on_after_game K rw' s6 = Inr kvs" and s': "s' = log_keys kvs s6" and rw: "fst rw' = rw0"
    by auto
  from h assms(1) have "SinglePlayerMaster_on_after_game rw' s6 = Inr kvs" by simp
  then obtain r where r: "reward_for_player rw' 0 = Inr r"
    and kvs: "kvs = (''numeric_reward'', LNum r) # SinglePlayerMaster_prepare_metrics (Some r)"
    by (auto simp: SinglePlayerMaster_on_after_game_def elim!: bindE)
  from r rw assms(5) have "r = -1"
    by (auto simp: reward_for_player_def split: if_splits)
  with kvs have "kvs = [(''numeric_reward'', LNum (-1)), (METRIC_ABORTED, LInt 1),
                        (METRIC_SUCCESS, LInt 0), (METRIC_LOSE, LInt 1)]"
    by (simp add: SinglePlayerMaster_prepare_metrics_minus_one)
  with s' have "interactions s' METRIC_ABORTED = Some (LInt 1) \<and>
         interactions s' METRIC_LOSE = Some (LInt 1) \<and>
         interactions s' METRIC_SUCCESS = Some (LInt 0)"
    by (simp add: metric_keys_distinct)
  moreover have "close_calls s' = close_calls s + 1"
    using step_close_calls[OF assms(2)] by simp
  ultimately show ?thesis using viol by simp
qed


section \<open>The example session, evaluated\<close>

lemma example_two_fields:
  "players_by_id example_two =
     [(-1, GM),
      (0, PlayerObj \<lparr> ta_id = 0, name = ''Player 0'', game_role = ''Player 0'' \<rparr>),
      (1, PlayerObj \<lparr> ta_id = 1, name = ''Player 1'', game_role = ''Player 1'' \<rparr>)]"
  "checked_observations example_two = [0 \<mapsto> 0, 1 \<mapsto> 0]"
  "logged_observation_count example_two 0 = Some 0"
  "logged_observation_count example_two 1 = Some 0"
  "env_state example_two = example_state"
  "played_in_round example_two = {}"
  "current_round example_two = 0"
  "last_player example_two = None"
  "violated_request_count example_two = 0"
  "close_calls example_two = 0"
  "request_violation example_two = False"
  by (simp_all add: example_two_def setup_master_def dummy_player_specs_def init_master_def
        add_player_def str_int_examples upt_rec Let_def)

lemma example_single_fields:
  "players_by_id example_single =
     [(-1, GM),
      (0, PlayerObj \<lparr> ta_id = 0, name = ''Player 0'', game_role = ''Player 0'' \<rparr>)]"
  "checked_observations example_single = [0 \<mapsto> 0]"
  "logged_observation_count example_single 0 = Some 0"
  "env_state example_single = example_state"
  "played_in_round example_single = {}"
  "current_round example_single = 0"
  "last_player example_single = None"
  "violated_request_count example_single = 0"
  "close_calls example_single = 0"
  "request_violation example_single = False"
  by (simp_all add: example_single_def setup_master_def dummy_player_specs_def init_master_def
        add_player_def str_int_examples upt_rec Let_def)

lemmas example_eval =
  step_def example_collaborators_def example_env_step_def example_env_close_def
  example_two_fields example_single_fields check_move_validity_def example_state_def
  example_log_def obs_of_def Let_def record_step_result_def start_next_round_def
  prepare_next_round_def log_next_round_def after_game_def count_request_violation_def
  log_event_def log_key_def game_prefix_def current_player_name_def get_current_player_def
  TwoPlayerMaster_on_after_game_def SinglePlayerMaster_on_after_game_def reward_for_player_def
  invalid_move_marker_def example_script_def illegal_script_def observe_def get_context_for_def
  observation_def convert_obs_to_context_def player_call_def perceive_context_def
  sender_name_def str_int_examples

theorem round_completes_iff_all_acted_and_no_violation_witness:
  "\<exists>s'. step (example_collaborators example_script TwoPlayerMaster_on_after_game)
            (example_two\<lparr>played_in_round := {0, 1}\<rparr>) ''move-x'' = Inr ((False, []), s') \<and>
         players_by_id (example_two\<lparr>played_in_round := {0, 1}\<rparr>) =
           players_by_id (setup_master example_state [] [''model-a'', ''model-b'']) \<and>
         card (played_in_round (example_two\<lparr>played_in_round := {0, 1}\<rparr>)) =
           agent_count (example_two\<lparr>played_in_round := {0, 1}\<rparr>) \<and>
         \<not> request_violation s' \<and>
         played_in_round s' = {} \<and>
         current_round s' = current_round (example_two\<lparr>played_in_round := {0, 1}\<rparr>) + 1"
proof -
  let ?K = "example_collaborators example_script TwoPlayerMaster_on_after_game"
  let ?s = "example_two\<lparr>played_in_round := {0, 1}\<rparr>"
  have "\<exists>s'. step ?K ?s ''move-x'' = Inr ((False, []), s') \<and> \<not> request_violation s'"
    by (simp add: example_eval)
  then obtain s' where h: "step ?K ?s ''move-x'' = Inr ((False, []), s')"
    and rv: "\<not> request_violation s'" by blast
  have p: "players_by_id ?s = players_by_id (setup_master example_state [] [''model-a'', ''model-b''])"
    by (simp add: example_two_def)
  have c: "card (played_in_round ?s) = agent_count ?s"
    by (simp add: agent_count_def example_two_fields)
  from round_completes_iff_all_acted_and_no_violation[OF h p] c rv
  have "played_in_round s' = {} \<and> current_round s' = current_round ?s + 1" by blast
  with h p c rv show ?thesis by blast
qed

lemma example_close_invalid:
  "example_env_close (example_state\<lparr>internal := True\<rparr>) =
     Inr (([1 \<mapsto> 0, 0 \<mapsto> -1],
           [1 \<mapsto> [''reason'' \<mapsto> PStr ''The opponent left the game.'', ''invalid_move'' \<mapsto> PBool False],
            0 \<mapsto> [''reason'' \<mapsto> PStr ''The player left the game.'', ''invalid_move'' \<mapsto> PBool True]]),
          example_state\<lparr>internal := True\<rparr>)"
  by (simp add: example_env_close_def example_state_def)

theorem final_invalid_move_is_counted_witness:
  "\<exists>s'. step (example_collaborators illegal_script TwoPlayerMaster_on_after_game)
            (example_two\<lparr>played_in_round := {0}, last_player := Some 0\<rparr>) ''illegal'' =
           Inr ((True, []), s') \<and>
         violated_request_count s' = 1 \<and> current_round s' = 0 \<and> played_in_round s' = {0}"
proof -
  let ?K = "example_collaborators illegal_script TwoPlayerMaster_on_after_game"
  let ?s = "example_two\<lparr>played_in_round := {0}, last_player := Some 0\<rparr>"
  let ?d = "[''reason'' \<mapsto> PStr ''The player left the game.'', ''invalid_move'' \<mapsto> PBool True]"
  have "\<exists>s'. step ?K ?s ''illegal'' = Inr ((True, []), s') \<and> violated_request_count s' = 1"
    by (simp add: example_eval)
  then obtain s' where h: "step ?K ?s ''illegal'' = Inr ((True, []), s')"
    and v: "violated_request_count s' = 1" by blast
  have e: "env_step ?K (env_state ?s) ''illegal'' = Inr (True, [], example_state\<lparr>internal := True\<rparr>)"
    by (simp add: example_eval)
  have c: "env_close ?K (example_state\<lparr>internal := True\<rparr>) =
     Inr (([1 \<mapsto> 0, 0 \<mapsto> -1],
           [1 \<mapsto> [''reason'' \<mapsto> PStr ''The opponent left the game.'', ''invalid_move'' \<mapsto> PBool False],
            0 \<mapsto> ?d]),
          example_state\<lparr>internal := True\<rparr>)"
    using example_close_invalid by (simp add: example_collaborators_def)
  have l: "last_player ?s = Some 0" by simp
  have d: "[1 \<mapsto> [''reason'' \<mapsto> PStr ''The opponent left the game.'', ''invalid_move'' \<mapsto> PBool False],
            0 \<mapsto> ?d] (0::int) = Some ?d" by simp
  have i: "?d ''invalid_move'' = Some (PBool True)" by simp
  have t: "truthy (PBool True)" by simp
  from final_invalid_move_is_counted[OF h e c l d i t]
  have "current_round s' = 0 \<and> played_in_round s' = {0}" by (simp add: example_two_fields)
  with h v show ?thesis by blast
qed

theorem single_player_final_violation_outcome_witness:
  "\<exists>s'. step (example_collaborators illegal_script SinglePlayerMaster_on_after_game)
            (example_single\<lparr>played_in_round := {0}, last_player := Some 0\<rparr>) ''illegal'' =
           Inr ((True, []), s') \<and>
         interactions s' METRIC_ABORTED = Some (LInt 1) \<and>
         interactions s' METRIC_LOSE = Some (LInt 1) \<and>
         interactions s' METRIC_SUCCESS = Some (LInt 0) \<and>
         1 \<le> violated_request_count s' \<and>
         close_calls s' = 1"
proof -
  let ?K = "example_collaborators illegal_script SinglePlayerMaster_on_after_game"
  let ?s = "example_single\<lparr>played_in_round := {0}, last_player := Some 0\<rparr>"
  let ?d = "[''reason'' \<mapsto> PStr ''The player left the game.'', ''invalid_move'' \<mapsto> PBool True]"
  have "\<exists>s'. step ?K ?s ''illegal'' = Inr ((True, []), s')"
    by (simp add: example_eval)
  then obtain s' where h: "step ?K ?s ''illegal'' = Inr ((True, []), s')" by blast
  have k: "on_after_game ?K = SinglePlayerMaster_on_after_game"
    by (simp add: example_collaborators_def)
  have e: "env_step ?K (env_state ?s) ''illegal'' = Inr (True, [], example_state\<lparr>internal := True\<rparr>)"
    by (simp add: example_eval)
  have c: "env_close ?K (example_state\<lparr>internal := True\<rparr>) =
     Inr (([1 \<mapsto> 0, 0 \<mapsto> -1],
           [1 \<mapsto> [''reason'' \<mapsto> PStr ''The opponent left the game.'', ''invalid_move'' \<mapsto> PBool False],
            0 \<mapsto> ?d]),
          example_state\<lparr>internal := True\<rparr>)"
    using example_close_invalid by (simp add: example_collaborators_def)
  have r: "[1 \<mapsto> 0, 0 \<mapsto> -1] (0::int) = Some (-1::real)" by simp
  have l: "last_player ?s = Some 0" by simp
  have d: "[1 \<mapsto> [''reason'' \<mapsto> PStr ''The opponent left the game.'', ''invalid_move'' \<mapsto> PBool False],
            0 \<mapsto> ?d] (0::int) = Some ?d" by simp
  have i: "?d ''invalid_move'' = Some (PBool True)" by simp
  have t: "truthy (PBool True)" by simp
  from single_player_final_violation_outcome[OF k h e c r l d i t] h
  show ?thesis by (simp add: example_single_fields)
qed

theorem acted_and_last_actor_set_before_step_witness:
  "\<exists>ctx s1 s2 s3.
     observe (example_collaborators example_script TwoPlayerMaster_on_after_game) example_two =
       Inr (PlayerObj \<lparr> ta_id = 0, name = ''Player 0'', game_role = ''Player 0'' \<rparr>, ctx, s1) \<and>
     player_call (example_collaborators example_script TwoPlayerMaster_on_after_game) s1
       (PlayerObj \<lparr> ta_id = 0, name = ''Player 0'', game_role = ''Player 0'' \<rparr>) ctx =
       Inr (''move-x'', s2) \<and>
     step (example_collaborators example_script TwoPlayerMaster_on_after_game) s2 ''move-x'' =
       Inr ((False, []), s3) \<and>
     played_in_round s2 = {0} \<and> last_player s2 = Some 0 \<and> last_player s3 = Some 0"
proof -
  let ?K = "example_collaborators example_script TwoPlayerMaster_on_after_game"
  let ?p = "PlayerObj \<lparr> ta_id = 0, name = ''Player 0'', game_role = ''Player 0'' \<rparr>"
  have "\<exists>ctx s1. observe ?K example_two = Inr (?p, ctx, s1) \<and>
          (\<exists>s2. player_call ?K s1 ?p ctx = Inr (''move-x'', s2) \<and>
             (\<exists>s3. step ?K s2 ''move-x'' = Inr ((False, []), s3)))"
    by (simp add: example_eval)
  then obtain ctx s1 s2 s3 where
    o: "observe ?K example_two = Inr (?p, ctx, s1)"
    and pc: "player_call ?K s1 ?p ctx = Inr (''move-x'', s2)"
    and st: "step ?K s2 ''move-x'' = Inr ((False, []), s3)" by blast
  from acted_and_last_actor_set_before_step[OF o pc st]
  have "played_in_round s2 = {0} \<and> last_player s2 = Some 0 \<and> last_player s3 = Some 0"
    by (auto simp: example_two_fields)
  with o pc st show ?thesis by blast
qed

lemma example_play:
  "\<exists>s'. play (example_collaborators example_script TwoPlayerMaster_on_after_game) example_two =
         Some (Inr s')"
  apply (subst play.simps)
  apply (simp add: example_eval)
  apply (subst play.simps)
  apply (simp add: example_eval)
  done

theorem cursor_monotone_bounded_exact_delivery_witness:
  "example_cursors 0 = Some 0 \<and> observations example_state 0 = Some example_log \<and>
   0 \<le> length example_log \<and>
   observation ''P'' example_state example_cursors 0 =
     Inr (''P\<newline>\<newline>[GAME] Your turn\<newline>[Player 1] move-y\<newline>'', example_cursors(0 \<mapsto> 3)) \<and>
   (\<exists>st' cnt'.
      session_calls ''P'' 0 [Observe, Append [(-1, ''Go on'', GAME_MESSAGE)], Observe]
        example_state example_cursors =
        Inr ([(0, ''P\<newline>\<newline>[GAME] Your turn\<newline>[Player 1] move-y\<newline>''), (3, ''[GAME] Go on\<newline>'')],
             st', cnt') \<and>
      cnt' 0 = Some 4 \<and>
      observations st' 0 = Some (example_log @ [(-1, ''Go on'', GAME_MESSAGE)]) \<and>
      concat (map (delivered_lines ''P'')
        [(0, ''P\<newline>\<newline>[GAME] Your turn\<newline>[Player 1] move-y\<newline>''), (3, ''[GAME] Go on\<newline>'')]) =
        ''[GAME] Your turn\<newline>[Player 1] move-y\<newline>[GAME] Go on\<newline>'')"
proof -
  let ?ops = "[Observe, Append [(-1, ''Go on'', GAME_MESSAGE)], Observe]"
  have h1: "example_cursors 0 = Some 0" by (simp add: example_cursors_def)
  have h2: "observations example_state 0 = Some example_log" by (simp add: example_state_def)
  have h3: "0 \<le> length example_log" by simp
  note t = cursor_monotone_bounded_exact_delivery[where cnt=example_cursors and player_id=0 and ?c0.0=0
      and st=example_state and ?obs0.0=example_log and prompt="''P''" and ops="?ops", OF h1 h2 h3]
  have rm: "role_mapping example_state = [-1 \<mapsto> ''GAME'']" by (simp add: example_state_def)
  have a: "observation ''P'' example_state example_cursors 0 =
     Inr (''P\<newline>\<newline>[GAME] Your turn\<newline>[Player 1] move-y\<newline>'', example_cursors(0 \<mapsto> 3))"
    using t[THEN conjunct1]
    by (simp add: rm example_log_def render_line_def visible_to_def sender_name_def str_int_examples
          eval_nat_numeral)
  from t[THEN conjunct2] obtain calls st' cnt' c' obs' where
    r: "session_calls ''P'' 0 ?ops example_state example_cursors = Inr (calls, st', cnt')"
    and f: "cnt' 0 = Some c'" "observations st' 0 = Some obs'" by blast
  have ev: "session_calls ''P'' 0 ?ops example_state example_cursors =
      Inr ([(0, ''P\<newline>\<newline>[GAME] Your turn\<newline>[Player 1] move-y\<newline>''), (3, ''[GAME] Go on\<newline>'')],
           append_obs 0 [(-1, ''Go on'', GAME_MESSAGE)] example_state,
           example_cursors(0 \<mapsto> 3, 0 \<mapsto> 4))"
    by (simp add: observation_def convert_obs_to_context_def example_state_def example_cursors_def
        example_log_def sender_name_def str_int_examples Let_def append_obs_def cursor_of_def
        eval_nat_numeral)
  from r ev have st': "st' = append_obs 0 [(-1, ''Go on'', GAME_MESSAGE)] example_state"
    and cnt': "cnt' = example_cursors(0 \<mapsto> 3, 0 \<mapsto> 4)" by simp_all
  have k: "cnt' 0 = Some 4" using cnt' by simp
  have o: "observations st' 0 = Some (example_log @ [(-1, ''Go on'', GAME_MESSAGE)])"
    using st' by (simp add: append_obs_def example_state_def)
  have d: "concat (map (delivered_lines ''P'')
        [(0, ''P\<newline>\<newline>[GAME] Your turn\<newline>[Player 1] move-y\<newline>''), (3, ''[GAME] Go on\<newline>'')]) =
        ''[GAME] Your turn\<newline>[Player 1] move-y\<newline>[GAME] Go on\<newline>''"
    by (simp add: delivered_lines_def)
  from r ev have "session_calls ''P'' 0 ?ops example_state example_cursors =
      Inr ([(0, ''P\<newline>\<newline>[GAME] Your turn\<newline>[Player 1] move-y\<newline>''), (3, ''[GAME] Go on\<newline>'')],
           st', cnt')" by simp
  with h1 h2 a k o d show ?thesis by blast
qed

theorem second_close_does_not_fail_counterexample:
  "close_calls_after_two_after_games
     (example_collaborators illegal_script SinglePlayerMaster_on_after_game)
     (example_single\<lparr>played_in_round := {0}, last_player := Some 0\<rparr>) = Inr 2"
  by (simp add: close_calls_after_two_after_games_def example_eval)

theorem close_invoked_once_by_play_witness:
  "\<exists>s' s1 s2 s3.
     play (example_collaborators example_script TwoPlayerMaster_on_after_game) example_two =
       Some (Inr s') \<and> close_calls s' = 1 \<and>
     step (example_collaborators example_script TwoPlayerMaster_on_after_game)
       example_two ''move-x'' = Inr ((False, []), s1) \<and> close_calls s1 = 0 \<and>
     after_game (example_collaborators illegal_script SinglePlayerMaster_on_after_game)
       (example_single\<lparr>played_in_round := {0}, last_player := Some 0\<rparr>) = Inr s2 \<and>
     after_game (example_collaborators illegal_script SinglePlayerMaster_on_after_game) s2 = Inr s3 \<and>
     close_calls s2 = 1 \<and> close_calls s3 = 2 \<and>
     after_game
       ((example_collaborators illegal_script SinglePlayerMaster_on_after_game)
          \<lparr>env_close := failing_env_close\<rparr>)
       (example_single\<lparr>played_in_round := {0}, last_player := Some 0\<rparr>) = Inl EnvError"
proof -
  let ?K = "example_collaborators example_script TwoPlayerMaster_on_after_game"
  let ?K1 = "example_collaborators illegal_script SinglePlayerMaster_on_after_game"
  let ?s = "example_single\<lparr>played_in_round := {0}, last_player := Some 0\<rparr>"
  from example_play obtain s' where p: "play ?K example_two = Some (Inr s')" by blast
  have "\<exists>s1. step ?K example_two ''move-x'' = Inr ((False, []), s1)"
    by (simp add: example_eval)
  then obtain s1 where st: "step ?K example_two ''move-x'' = Inr ((False, []), s1)" by blast
  have "\<exists>s2. after_game ?K1 ?s = Inr s2 \<and> (\<exists>s3. after_game ?K1 s2 = Inr s3)"
    by (simp add: example_eval)
  then obtain s2 s3 where a1: "after_game ?K1 ?s = Inr s2" and a2: "after_game ?K1 s2 = Inr s3"
    by blast
  have f: "env_close (?K1\<lparr>env_close := failing_env_close\<rparr>) (env_state ?s) = Inl EnvError"
    by (simp add: failing_env_close_def)
  have c0: "close_calls example_two = 0" "close_calls ?s = 0"
    by (simp_all add: example_two_fields example_single_fields)
  from close_invoked_once_by_play[of ?K example_two s' "''move-x''" False "[]" s1] p st c0
  have 1: "close_calls s' = 1 \<and> close_calls s1 = 0" by simp
  from close_invoked_once_by_play[of ?K1 ?s _ _ _ _ _ s2 _ s3] a1 a2 c0
  have 2: "close_calls s2 = 1 \<and> close_calls s3 = 2" by simp
  from close_invoked_once_by_play[of "?K1\<lparr>env_close := failing_env_close\<rparr>" ?s _ _ _ _ _ _ EnvError] f
  have 3: "after_game (?K1\<lparr>env_close := failing_env_close\<rparr>) ?s = Inl EnvError" by blast
  from p st a1 a2 1 2 3 show ?thesis by blast
qed

section \<open>Benchmark construction\<close>

lemma globals_defaults:
  "globals_subscript (SStr ''SinglePlayerMaster'') = Inr SinglePlayerMaster"
  "globals_subscript (SStr ''TwoPlayerMaster'') = Inr TwoPlayerMaster"
  "globals_subscript (SStr ''SinglePlayerScorer'') = Inr SinglePlayerScorer"
  "globals_subscript (SStr ''TwoPlayerScorer'') = Inr TwoPlayerScorer"
  by (simp_all add: globals_subscript_def module_globals_def)

lemma benchmark_init_error:
  assumes "gs ''players'' \<noteq> Some (SInt 1)" and "gs ''players'' \<noteq> Some (SInt 2)"
    and "gs ''master'' = None \<or> gs ''scorer'' = None"
  shows "\<exists>e. benchmark_init B gs = Inl e"
proof (cases "super_init B gs")
  case (Inl e)
  then show ?thesis by (simp add: benchmark_init_def)
next
  case (Inr u)
  show ?thesis
  proof (cases "gs ''master''")
    case None
    with assms Inr show ?thesis
      by (cases "gs ''players''") (simp_all add: subscript_def benchmark_init_def choose_master_def)
  next
    case (Some m)
    with assms have "gs ''scorer'' = None" by simp
    with assms Some Inr show ?thesis
      by (cases "gs ''players''")
         (simp_all add: subscript_def benchmark_init_def choose_master_def choose_scorer_def)
  qed
qed

lemma benchmark_init_defaults:
  assumes "gs ''master'' = None" and "gs ''scorer'' = None"
  shows "gs ''players'' = Some (SInt 1) \<Longrightarrow> benchmark_init B gs = Inr b \<Longrightarrow>
           b = \<lparr> master_class = SinglePlayerMaster, scorer_class = SinglePlayerScorer \<rparr>"
    and "gs ''players'' = Some (SInt 2) \<Longrightarrow> benchmark_init B gs = Inr b \<Longrightarrow>
           b = \<lparr> master_class = TwoPlayerMaster, scorer_class = TwoPlayerScorer \<rparr>"
  using assms
  by (auto simp: benchmark_init_def choose_master_def choose_scorer_def globals_defaults Let_def
           split: if_splits elim!: bindE)

lemma benchmark_init_success:
  assumes "gs ''master'' = None" and "gs ''scorer'' = None" and "super_init B gs = Inr ()"
    and "gs ''instances'' = Some (SStr n)"
    and "path_exists B (path_join (path_join (module_dir B) ''in'') (n @ ''.json'')) \<or>
         generate_instances B gs = Inr ()"
  shows "gs ''players'' = Some (SInt 1) \<Longrightarrow> benchmark_init B gs =
           Inr \<lparr> master_class = SinglePlayerMaster, scorer_class = SinglePlayerScorer \<rparr>"
    and "gs ''players'' = Some (SInt 2) \<Longrightarrow> benchmark_init B gs =
           Inr \<lparr> master_class = TwoPlayerMaster, scorer_class = TwoPlayerScorer \<rparr>"
  using assms
  by (auto simp: benchmark_init_def choose_master_def choose_scorer_def globals_defaults Let_def
           add_json_def)

text \<open>
  C8. Constructing the benchmark from a game spec whose player count is neither 1 nor
  2 raises an error when the spec names no master, and when it names no scorer (the
  \<open>ValueError\<close> with the respective message once the base class constructor has
  returned and the count is present). With player count 1 and neither named, a
  constructed benchmark has the single-player master and scorer, and construction
  succeeds when the base class constructor returns and the instance file exists or
  is generated; with player count 2 the same holds with the two-player master and
  scorer. Construction makes and resets no environment.
\<close>

theorem benchmark_init_master_scorer_choice:
  "(gs ''players'' \<noteq> Some (SInt 1) \<and> gs ''players'' \<noteq> Some (SInt 2) \<and>
      (gs ''master'' = None \<or> gs ''scorer'' = None)
      \<longrightarrow> (\<exists>e. benchmark_init B gs = Inl e)) \<and>
   (super_init B gs = Inr () \<and> gs ''players'' = Some p \<and> p \<noteq> SInt 1 \<and> p \<noteq> SInt 2 \<and>
      gs ''master'' = None
      \<longrightarrow> benchmark_init B gs =
            Inl (ValueError ''Multi-player games require a specified 'master' in the game spec.'')) \<and>
   (super_init B gs = Inr () \<and> gs ''players'' = Some p \<and> p \<noteq> SInt 1 \<and> p \<noteq> SInt 2 \<and>
      gs ''master'' \<noteq> None \<and> gs ''scorer'' = None
      \<longrightarrow> benchmark_init B gs =
            Inl (ValueError ''Multi-player games require a specified 'scorer' in the game spec.'')) \<and>
   (gs ''players'' = Some (SInt 1) \<and> gs ''master'' = None \<and> gs ''scorer'' = None
      \<longrightarrow> (\<forall>b. benchmark_init B gs = Inr b \<longrightarrow>
               b = \<lparr> master_class = SinglePlayerMaster, scorer_class = SinglePlayerScorer \<rparr>) \<and>
          (super_init B gs = Inr () \<and> gs ''instances'' = Some (SStr n) \<and>
           (path_exists B (path_join (path_join (module_dir B) ''in'') (n @ ''.json'')) \<or>
            generate_instances B gs = Inr ())
           \<longrightarrow> benchmark_init B gs =
                 Inr \<lparr> master_class = SinglePlayerMaster, scorer_class = SinglePlayerScorer \<rparr>)) \<and>
   (gs ''players'' = Some (SInt 2) \<and> gs ''master'' = None \<and> gs ''scorer'' = None
      \<longrightarrow> (\<forall>b. benchmark_init B gs = Inr b \<longrightarrow>
               b = \<lparr> master_class = TwoPlayerMaster, scorer_class = TwoPlayerScorer \<rparr>) \<and>
          (super_init B gs = Inr () \<and> gs ''instances'' = Some (SStr n) \<and>
           (path_exists B (path_join (path_join (module_dir B) ''in'') (n @ ''.json'')) \<or>
            generate_instances B gs = Inr ())
           \<longrightarrow> benchmark_init B gs =
                 Inr \<lparr> master_class = TwoPlayerMaster, scorer_class = TwoPlayerScorer \<rparr>))"
proof (intro conjI impI allI)
  assume "gs ''players'' \<noteq> Some (SInt 1) \<and> gs ''players'' \<noteq> Some (SInt 2) \<and>
      (gs ''master'' = None \<or> gs ''scorer'' = None)"
  then show "\<exists>e. benchmark_init B gs = Inl e" using benchmark_init_error[of gs B] by blast
next
  assume "super_init B gs = Inr () \<and> gs ''players'' = Some p \<and> p \<noteq> SInt 1 \<and> p \<noteq> SInt 2 \<and>
      gs ''master'' = None"
  then show "benchmark_init B gs =
            Inl (ValueError ''Multi-player games require a specified 'master' in the game spec.'')"
    by (simp add: subscript_def benchmark_init_def choose_master_def)
next
  assume "super_init B gs = Inr () \<and> gs ''players'' = Some p \<and> p \<noteq> SInt 1 \<and> p \<noteq> SInt 2 \<and>
      gs ''master'' \<noteq> None \<and> gs ''scorer'' = None"
  then show "benchmark_init B gs =
            Inl (ValueError ''Multi-player games require a specified 'scorer' in the game spec.'')"
    by (auto simp add: subscript_def benchmark_init_def choose_master_def choose_scorer_def)
next
  fix b
  assume "gs ''players'' = Some (SInt 1) \<and> gs ''master'' = None \<and> gs ''scorer'' = None"
    and "benchmark_init B gs = Inr b"
  then show "b = \<lparr> master_class = SinglePlayerMaster, scorer_class = SinglePlayerScorer \<rparr>"
    using benchmark_init_defaults(1)[of gs B b] by blast
next
  assume "gs ''players'' = Some (SInt 1) \<and> gs ''master'' = None \<and> gs ''scorer'' = None"
    and "super_init B gs = Inr () \<and> gs ''instances'' = Some (SStr n) \<and>
           (path_exists B (path_join (path_join (module_dir B) ''in'') (n @ ''.json'')) \<or>
            generate_instances B gs = Inr ())"
  then show "benchmark_init B gs =
                 Inr \<lparr> master_class = SinglePlayerMaster, scorer_class = SinglePlayerScorer \<rparr>"
    using benchmark_init_success(1)[of gs B n] by blast
next
  fix b
  assume "gs ''players'' = Some (SInt 2) \<and> gs ''master'' = None \<and> gs ''scorer'' = None"
    and "benchmark_init B gs = Inr b"
  then show "b = \<lparr> master_class = TwoPlayerMaster, scorer_class = TwoPlayerScorer \<rparr>"
    using benchmark_init_defaults(2)[of gs B b] by blast
next
  assume "gs ''players'' = Some (SInt 2) \<and> gs ''master'' = None \<and> gs ''scorer'' = None"
    and "super_init B gs = Inr () \<and> gs ''instances'' = Some (SStr n) \<and>
           (path_exists B (path_join (path_join (module_dir B) ''in'') (n @ ''.json'')) \<or>
            generate_instances B gs = Inr ())"
  then show "benchmark_init B gs =
                 Inr \<lparr> master_class = TwoPlayerMaster, scorer_class = TwoPlayerScorer \<rparr>"
    using benchmark_init_success(2)[of gs B n] by blast
qed

theorem benchmark_init_master_scorer_choice_witness:
  "benchmark_init example_deps [''players'' \<mapsto> SInt 3, ''instances'' \<mapsto> SStr ''instances''] =
     Inl (ValueError ''Multi-player games require a specified 'master' in the game spec.'') \<and>
   benchmark_init example_deps
     [''players'' \<mapsto> SInt 3, ''master'' \<mapsto> SStr ''TwoPlayerMaster'', ''instances'' \<mapsto> SStr ''instances''] =
     Inl (ValueError ''Multi-player games require a specified 'scorer' in the game spec.'') \<and>
   (\<exists>e. benchmark_init example_deps
     [''players'' \<mapsto> SInt 3, ''scorer'' \<mapsto> SStr ''TwoPlayerScorer'', ''instances'' \<mapsto> SStr ''instances''] =
     Inl e) \<and>
   benchmark_init example_deps [''players'' \<mapsto> SInt 1, ''instances'' \<mapsto> SStr ''instances''] =
     Inr \<lparr> master_class = SinglePlayerMaster, scorer_class = SinglePlayerScorer \<rparr> \<and>
   benchmark_init example_deps
     [''players'' \<mapsto> SInt 2, ''instances'' \<mapsto> SStr ''fresh'', ''entry_point'' \<mapsto> SStr ''envs:Game''] =
     Inr \<lparr> master_class = TwoPlayerMaster, scorer_class = TwoPlayerScorer \<rparr>"
proof -
  let ?a = "[''players'' \<mapsto> SInt 3, ''instances'' \<mapsto> SStr ''instances'']"
  let ?b = "[''players'' \<mapsto> SInt 3, ''master'' \<mapsto> SStr ''TwoPlayerMaster'', ''instances'' \<mapsto> SStr ''instances'']"
  let ?c = "[''players'' \<mapsto> SInt 3, ''scorer'' \<mapsto> SStr ''TwoPlayerScorer'', ''instances'' \<mapsto> SStr ''instances'']"
  let ?d = "[''players'' \<mapsto> SInt 1, ''instances'' \<mapsto> SStr ''instances'']"
  let ?e = "[''players'' \<mapsto> SInt 2, ''instances'' \<mapsto> SStr ''fresh'', ''entry_point'' \<mapsto> SStr ''envs:Game'']"
  have s: "\<And>gs. super_init example_deps gs = Inr ()" by (simp add: example_deps_def)
  have ex: "path_exists example_deps
              (path_join (path_join (module_dir example_deps) ''in'') (''instances'' @ ''.json''))"
    by (simp add: example_deps_def path_join_def)
  have gen: "generate_instances example_deps ?e = Inr ()"
    by (simp add: generate_instances_def add_json_def on_generate_def example_deps_def Let_def)
  have three: "SInt 3 \<noteq> SInt 1" "SInt 3 \<noteq> SInt 2" by simp_all
  have pa: "?a ''players'' = Some (SInt 3)" "?a ''master'' = None" by simp_all
  have pb: "?b ''players'' = Some (SInt 3)" "?b ''master'' \<noteq> None" "?b ''scorer'' = None" by simp_all
  have pc: "?c ''players'' \<noteq> Some (SInt 1)" "?c ''players'' \<noteq> Some (SInt 2)" "?c ''master'' = None"
    by simp_all
  have pd: "?d ''players'' = Some (SInt 1)" "?d ''master'' = None" "?d ''scorer'' = None"
     "?d ''instances'' = Some (SStr ''instances'')" by simp_all
  have pe: "?e ''players'' = Some (SInt 2)" "?e ''master'' = None" "?e ''scorer'' = None"
     "?e ''instances'' = Some (SStr ''fresh'')" by simp_all
  have 1: "benchmark_init example_deps ?a =
     Inl (ValueError ''Multi-player games require a specified 'master' in the game spec.'')"
    using benchmark_init_master_scorer_choice[of ?a example_deps "SInt 3" "[]"] pa three s by blast
  have 2: "benchmark_init example_deps ?b =
     Inl (ValueError ''Multi-player games require a specified 'scorer' in the game spec.'')"
    using benchmark_init_master_scorer_choice[of ?b example_deps "SInt 3" "[]"] pb three s by blast
  have 3: "\<exists>e. benchmark_init example_deps ?c = Inl e"
    using benchmark_init_master_scorer_choice[of ?c example_deps "SInt 3" "[]"] pc by blast
  have 4: "benchmark_init example_deps ?d =
     Inr \<lparr> master_class = SinglePlayerMaster, scorer_class = SinglePlayerScorer \<rparr>"
    using benchmark_init_master_scorer_choice[of ?d example_deps "SInt 3" "''instances''"] pd s ex
    by blast
  have 5: "benchmark_init example_deps ?e =
     Inr \<lparr> master_class = TwoPlayerMaster, scorer_class = TwoPlayerScorer \<rparr>"
    using benchmark_init_master_scorer_choice[of ?e example_deps "SInt 3" "''fresh''"] pe s gen
    by blast
  from 1 2 3 4 5 show ?thesis by blast
qed

text \<open>
  C2. The observations inspected after a step are those of the player that is current
  after the step, not those of the player that acted. In the example session player 0
  makes a move that the environment accepts: the turn passes to player 1, and the text
  of the move, which contains \<open>attempted an invalid move\<close>, reaches player 1 only. The
  flag is raised and a request violation is counted, although no move was rejected and
  nothing carrying the marker was appended to the window of the acting player.
\<close>

theorem accepted_move_raises_violation_flag:
  "current_player_id (env_state example_two) = 0 \<and>
   current_player_after (example_collaborators example_script TwoPlayerMaster_on_after_game)
     example_two ''I attempted an invalid move'' = Some 1 \<and>
   violation_flag_after (example_collaborators example_script TwoPlayerMaster_on_after_game)
     example_two ''I attempted an invalid move'' = Some True \<and>
   violation_count_after (example_collaborators example_script TwoPlayerMaster_on_after_game)
     example_two ''I attempted an invalid move'' = Some 1 \<and>
   acting_agent_marker (example_collaborators example_script TwoPlayerMaster_on_after_game)
     example_two ''I attempted an invalid move'' = Some False"
  by (simp add: violation_flag_after_def violation_count_after_def current_player_after_def
        acting_agent_marker_def example_eval)

end
